theory Spec2Isabelle
  imports Complex_Main
begin

section \<open>Spectral preprocessing transforms (src/src/preprocessing.py)\<close>

text \<open>
  The module holds four functions over a two-dimensional numpy array of float64 values:
  \<open>msc\<close>, \<open>snv\<close>, \<open>smooth\<close> and \<open>savgol\<close>. The embedding keeps the arrays in an explicit
  store, because \<open>smooth\<close> writes through the caller's buffer while the others allocate.

  Numbers: a float64 is a real or one of the IEEE special values. An operation gives
  the exact result where that lies in the range of float64, infinity where it
  overflows and zero where it underflows; division by zero and the propagation of
  infinities and NaN follow IEEE 754, as numpy does on arrays (it warns, it does not
  raise). Rounding to 53 bits is not modelled, and there is one zero: a value that
  depends on the last bits of a result is outside what the theorems below state.
\<close>

subsection \<open>Exceptions\<close>

datatype error =
    TypeError string
  | ValueError string
  | RuntimeError string
  | LinAlgError string

subsection \<open>float64 values\<close>

datatype float64 = Fin real | PInf | NInf | NaN

fun is_finite :: "float64 \<Rightarrow> bool" where
  "is_finite (Fin x) = True"
| "is_finite PInf = False"
| "is_finite NInf = False"
| "is_finite NaN = False"

fun fneg :: "float64 \<Rightarrow> float64" where
  "fneg (Fin x) = Fin (- x)"
| "fneg PInf = NInf"
| "fneg NInf = PInf"
| "fneg NaN = NaN"

text \<open>
  The range. A result of magnitude at least \<open>2^1024 - 2^970\<close> (half an ulp above the
  largest float64) rounds to infinity; one of magnitude at most \<open>2^-1075\<close> (half the
  smallest subnormal) rounds to zero. A real has the magnitude of a float64 when it is
  zero or lies between the smallest subnormal and the overflow threshold.
\<close>

definition overflow_threshold :: real where
  "overflow_threshold = 2 ^ 1024 - 2 ^ 970"

definition underflow_threshold :: real where
  "underflow_threshold = 1 / 2 ^ 1075"

definition smallest_subnormal :: real where
  "smallest_subnormal = 1 / 2 ^ 1074"

definition float64_magnitude :: "real \<Rightarrow> bool" where
  "float64_magnitude x \<longleftrightarrow>
     \<bar>x\<bar> < overflow_threshold \<and> (x = 0 \<or> smallest_subnormal \<le> \<bar>x\<bar>)"

text \<open>
  The float64 an operation on \<open>x\<close> and \<open>y\<close> returns when its exact result is \<open>r\<close>.
  \<open>Fin\<close> also holds reals that no float64 has the magnitude of; no value of the
  program is one, and on them the operation is left exact.
\<close>

definition ieee_result :: "real \<Rightarrow> real \<Rightarrow> real \<Rightarrow> float64" where
  "ieee_result x y r =
     (if float64_magnitude x \<and> float64_magnitude y then
        (if overflow_threshold \<le> \<bar>r\<bar> then (if 0 < r then PInf else NInf)
         else if \<bar>r\<bar> \<le> underflow_threshold then Fin 0
         else Fin r)
      else Fin r)"

fun fadd :: "float64 \<Rightarrow> float64 \<Rightarrow> float64" where
  "fadd (Fin x) (Fin y) = ieee_result x y (x + y)"
| "fadd NaN b = NaN"
| "fadd a NaN = NaN"
| "fadd PInf NInf = NaN"
| "fadd NInf PInf = NaN"
| "fadd PInf b = PInf"
| "fadd a PInf = PInf"
| "fadd NInf b = NInf"
| "fadd a NInf = NInf"

definition fsub :: "float64 \<Rightarrow> float64 \<Rightarrow> float64" where
  "fsub a b = fadd a (fneg b)"

fun fmul :: "float64 \<Rightarrow> float64 \<Rightarrow> float64" where
  "fmul (Fin x) (Fin y) = ieee_result x y (x * y)"
| "fmul NaN b = NaN"
| "fmul a NaN = NaN"
| "fmul (Fin x) PInf = (if x = 0 then NaN else if 0 < x then PInf else NInf)"
| "fmul (Fin x) NInf = (if x = 0 then NaN else if 0 < x then NInf else PInf)"
| "fmul PInf (Fin y) = (if y = 0 then NaN else if 0 < y then PInf else NInf)"
| "fmul NInf (Fin y) = (if y = 0 then NaN else if 0 < y then NInf else PInf)"
| "fmul PInf PInf = PInf"
| "fmul PInf NInf = NInf"
| "fmul NInf PInf = NInf"
| "fmul NInf NInf = PInf"

fun fdiv :: "float64 \<Rightarrow> float64 \<Rightarrow> float64" where
  "fdiv (Fin x) (Fin y) =
     (if y \<noteq> 0 then ieee_result x y (x / y)
      else if x = 0 then NaN else if 0 < x then PInf else NInf)"
| "fdiv NaN b = NaN"
| "fdiv a NaN = NaN"
| "fdiv (Fin x) PInf = Fin 0"
| "fdiv (Fin x) NInf = Fin 0"
| "fdiv PInf (Fin y) = (if 0 \<le> y then PInf else NInf)"
| "fdiv NInf (Fin y) = (if 0 \<le> y then NInf else PInf)"
| "fdiv PInf PInf = NaN"
| "fdiv PInf NInf = NaN"
| "fdiv NInf PInf = NaN"
| "fdiv NInf NInf = NaN"

fun fsqrt :: "float64 \<Rightarrow> float64" where
  "fsqrt (Fin x) = (if 0 \<le> x then Fin (sqrt x) else NaN)"
| "fsqrt PInf = PInf"
| "fsqrt NInf = NaN"
| "fsqrt NaN = NaN"

subsection \<open>numpy reductions on one axis\<close>

text \<open>\<open>np.sum\<close> of a vector; the empty sum is 0.0.\<close>

definition np_sum :: "float64 list \<Rightarrow> float64" where
  "np_sum xs = foldr fadd xs (Fin 0)"

text \<open>\<open>np.mean\<close>: the sum over the count. On an empty vector this is 0.0 / 0 = NaN.\<close>

definition np_mean :: "float64 list \<Rightarrow> float64" where
  "np_mean xs = fdiv (np_sum xs) (Fin (real (length xs)))"

text \<open>
  \<open>np.std(x, ddof)\<close>: the square root of the sum of squared deviations from the mean
  over \<open>max (N - ddof) 0\<close>. The code calls it with the default \<open>ddof = 0\<close>.
\<close>

definition np_std :: "nat \<Rightarrow> float64 list \<Rightarrow> float64" where
  "np_std ddof xs =
     (let d = map (\<lambda>x. fsub x (np_mean xs)) xs
      in fsqrt (fdiv (np_sum (map (\<lambda>v. fmul v v) d))
                     (Fin (real (length xs - ddof)))))"

subsection \<open>Arrays and the store\<close>

text \<open>
  A two-dimensional ndarray: its shape and its rows. A numpy array is never ragged;
  \<open>wf_ndarray\<close> says so.
\<close>

record ndarray =
  shape0 :: nat
  shape1 :: nat
  cells :: "float64 list list"

definition wf_ndarray :: "ndarray \<Rightarrow> bool" where
  "wf_ndarray A \<longleftrightarrow>
     length (cells A) = shape0 A \<and> list_all (\<lambda>r. length r = shape1 A) (cells A)"

definition shape :: "ndarray \<Rightarrow> nat \<times> nat" where
  "shape A = (shape0 A, shape1 A)"

type_synonym addr = nat
type_synonym heap = "ndarray list"

definition alloc :: "heap \<Rightarrow> ndarray \<Rightarrow> addr \<times> heap" where
  "alloc h A = (length h, h @ [A])"

text \<open>\<open>a.copy()\<close>\<close>

definition ndarray_copy :: "heap \<Rightarrow> addr \<Rightarrow> addr \<times> heap" where
  "ndarray_copy h a = alloc h (h ! a)"

text \<open>\<open>np.zeros_like(a)\<close>\<close>

definition zeros_like :: "heap \<Rightarrow> addr \<Rightarrow> addr \<times> heap" where
  "zeros_like h a =
     alloc h ((h ! a)\<lparr>cells := replicate (shape0 (h ! a)) (replicate (shape1 (h ! a)) (Fin 0))\<rparr>)"

text \<open>\<open>a[i,:]\<close> read, and \<open>a[i,:] = r\<close>\<close>

definition get_row :: "heap \<Rightarrow> addr \<Rightarrow> nat \<Rightarrow> float64 list" where
  "get_row h a i = cells (h ! a) ! i"

definition set_row :: "heap \<Rightarrow> addr \<Rightarrow> nat \<Rightarrow> float64 list \<Rightarrow> heap" where
  "set_row h a i r = h[a := (h ! a)\<lparr>cells := (cells (h ! a))[i := r]\<rparr>]"

text \<open>
  The loop shape shared by the four functions,
  \<^verbatim>\<open>for i in range(n): dst[i,:] = f(src[i,:])\<close>,
  over the indices in order. \<open>f\<close> may raise: the loop stops there and the store stays
  as the rows written so far left it.
\<close>

fun for_rows ::
  "(float64 list \<Rightarrow> error + float64 list) \<Rightarrow> addr \<Rightarrow> addr \<Rightarrow> nat list \<Rightarrow> heap
     \<Rightarrow> error option \<times> heap" where
  "for_rows f src dst [] h = (None, h)"
| "for_rows f src dst (i # is) h =
     (case f (get_row h src i) of
        Inl e \<Rightarrow> (Some e, h)
      | Inr r \<Rightarrow> for_rows f src dst is (set_row h dst i r))"

subsection \<open>snv\<close>

text \<open>
  \<^verbatim>\<open>
  output_data = np.zeros_like(input_data)
  for i in range(input_data.shape[0]):
      output_data[i,:] = (input_data[i,:] - np.mean(input_data[i,:])) / np.std(input_data[i,:])
  return output_data
  \<close>
\<close>

definition snv_row :: "float64 list \<Rightarrow> float64 list" where
  "snv_row r = map (\<lambda>x. fdiv (fsub x (np_mean r)) (np_std 0 r)) r"

definition snv :: "heap \<Rightarrow> addr \<Rightarrow> addr \<times> heap" where
  "snv h input_data =
     (let (output_data, h1) = zeros_like h input_data;
          (exc, h2) = for_rows (\<lambda>r. Inr (snv_row r)) input_data output_data
                        [0 ..< shape0 (h1 ! input_data)] h1
      in (output_data, h2))"

subsection \<open>numpy and scipy primitives used by msc and smooth\<close>

text \<open>\<open>np.mean(a, axis=0)\<close>: one mean per column. With no rows each mean is NaN.\<close>

definition np_mean_axis0 :: "ndarray \<Rightarrow> float64 list" where
  "np_mean_axis0 A = map (\<lambda>j. np_mean (map (\<lambda>r. r ! j) (cells A))) [0 ..< shape1 A]"

text \<open>\<open>np.ones(n)\<close>\<close>

definition np_ones :: "int \<Rightarrow> error + float64 list" where
  "np_ones n =
     (if n < 0 then Inl (ValueError ''negative dimensions are not allowed'')
      else Inr (replicate (nat n) (Fin 1)))"

text \<open>
  \<open>np.polyfit(x, y, 1)\<close>, returning (slope, intercept), which the code reads as
  \<open>fit[0][0]\<close> and \<open>fit[0][1]\<close>. numpy checks its arguments in this order and then
  solves the least-squares problem. On finite data whose abscissae are not all equal
  the solution is unique: it is modelled by what it is, the least-squares line over
  the reals in closed form, without the rounding of the LAPACK routine that computes
  it. Otherwise the design matrix is rank deficient or holds non-finite values, and
  what comes back is decided inside that routine: that outcome is the parameter
  \<open>lstsq_other\<close>.
\<close>

type_synonym lstsq = "float64 list \<Rightarrow> float64 list \<Rightarrow> error + float64 \<times> float64"

fun real_of :: "float64 \<Rightarrow> real" where
  "real_of (Fin x) = x"
| "real_of PInf = 0"
| "real_of NInf = 0"
| "real_of NaN = 0"

definition polyfit1 :: "lstsq \<Rightarrow> float64 list \<Rightarrow> float64 list \<Rightarrow> error + float64 \<times> float64" where
  "polyfit1 lstsq_other x y =
     (if x = [] then Inl (TypeError ''expected non-empty vector for x'')
      else if length x \<noteq> length y then Inl (TypeError ''expected x and y to have same length'')
      else
        let xs = map real_of x; ys = map real_of y;
            xm = sum_list xs / real (length xs); ym = sum_list ys / real (length ys);
            sxx = sum_list (map (\<lambda>u. (u - xm) * (u - xm)) xs);
            sxy = sum_list (map2 (\<lambda>u v. (u - xm) * (v - ym)) xs ys)
        in if list_all is_finite x \<and> list_all is_finite y \<and> sxx \<noteq> 0
           then (let a = sxy / sxx in Inr (Fin a, Fin (ym - a * xm)))
           else lstsq_other x y)"

text \<open>
  \<open>scipy.ndimage.convolve\<close> on a one-dimensional input with one-dimensional weights,
  \<open>cval = 0.0\<close>, \<open>origin = 0\<close>. The boundary modes and their aliases are those of the
  library; outside the input the signal is extended as the mode says (the window may
  be longer than the input). Only the weights of magnitude above \<open>DBL_EPSILON\<close> enter
  the sum: the library leaves the others, and a NaN weight, out of the footprint.
\<close>

datatype extend_mode = Nearest | Wrap | Reflect | Mirror | Constant

definition extend_mode_to_code :: "string \<Rightarrow> extend_mode option" where
  "extend_mode_to_code mode =
     (if mode = ''nearest'' then Some Nearest
      else if mode = ''wrap'' then Some Wrap
      else if mode = ''reflect'' \<or> mode = ''grid-mirror'' then Some Reflect
      else if mode = ''mirror'' then Some Mirror
      else if mode = ''constant'' then Some Constant
      else if mode = ''grid-wrap'' then Some Wrap
      else if mode = ''grid-constant'' then Some Constant
      else None)"

text \<open>
  The position read for index \<open>c\<close> of a signal of length \<open>len\<close>; None is the fill
  value. For the reflecting mode this is the reflected position. The library's index
  arithmetic departs from it at the indices \<open>c = - 2 k len\<close> with \<open>k\<close> at least 2,
  four row lengths or more to the left of the row: there it reads the cell before the
  row in memory, which is no cell of the row.
\<close>

definition extend_index :: "extend_mode \<Rightarrow> int \<Rightarrow> int \<Rightarrow> int option" where
  "extend_index m len c =
     (if 0 \<le> c \<and> c < len then Some c
      else case m of
        Constant \<Rightarrow> None
      | Nearest \<Rightarrow> Some (if c < 0 then 0 else len - 1)
      | Wrap \<Rightarrow> Some (if len \<le> 1 then 0 else c mod len)
      | Reflect \<Rightarrow>
          Some (if len \<le> 1 then 0
                else let p = c mod (2 * len) in if p < len then p else 2 * len - 1 - p)
      | Mirror \<Rightarrow>
          Some (if len \<le> 1 then 0
                else let p = c mod (2 * len - 2) in if p < len then p else 2 * len - 2 - p))"

definition extended :: "extend_mode \<Rightarrow> float64 list \<Rightarrow> int \<Rightarrow> float64" where
  "extended m xs c =
     (case extend_index m (int (length xs)) c of None \<Rightarrow> Fin 0 | Some k \<Rightarrow> xs ! nat k)"

fun in_footprint :: "float64 \<Rightarrow> bool" where
  "in_footprint (Fin w) = (1 / 2 ^ 52 < \<bar>w\<bar>)"
| "in_footprint PInf = True"
| "in_footprint NInf = True"
| "in_footprint NaN = False"

definition nd_convolve :: "float64 list \<Rightarrow> float64 list \<Rightarrow> string \<Rightarrow> error + float64 list" where
  "nd_convolve input weights mode =
     (if weights = [] then Inl (RuntimeError ''filter weights array has incorrect shape.'')
      else case extend_mode_to_code mode of
        None \<Rightarrow> Inl (RuntimeError ''boundary mode not supported'')
      | Some m \<Rightarrow>
          Inr (map (\<lambda>i. np_sum (map (\<lambda>j. fmul (weights ! j)
                                   (extended m input (int i + int (length weights div 2) - int j)))
                              (filter (\<lambda>j. in_footprint (weights ! j)) [0 ..< length weights])))
                 [0 ..< length input]))"

subsection \<open>msc\<close>

text \<open>
  \<^verbatim>\<open>
  input_data = input_data.copy()
  for i in range(input_data.shape[0]):
      input_data[i,:] -= input_data[i,:].mean()
  if reference is None:
      ref = np.mean(input_data, axis=0)
  else:
      ref = reference
  data_msc = np.zeros_like(input_data)
  for i in range(input_data.shape[0]):
      fit = np.polyfit(ref, input_data[i,:], 1, full=True)
      data_msc[i,:] = (input_data[i,:] - fit[0][1]) / fit[0][0]
  return data_msc
  \<close>
  The result is the exception raised or the address returned, with the store as the
  call left it.
\<close>

definition mean_centre :: "float64 list \<Rightarrow> float64 list" where
  "mean_centre r = map (\<lambda>x. fsub x (np_mean r)) r"

definition msc_correct :: "lstsq \<Rightarrow> float64 list \<Rightarrow> float64 list \<Rightarrow> error + float64 list" where
  "msc_correct lstsq_other ref r =
     (case polyfit1 lstsq_other ref r of
        Inl e \<Rightarrow> Inl e
      | Inr (a, b) \<Rightarrow> Inr (map (\<lambda>x. fdiv (fsub x b) a) r))"

definition msc ::
  "lstsq \<Rightarrow> heap \<Rightarrow> addr \<Rightarrow> float64 list option \<Rightarrow> (error + addr) \<times> heap" where
  "msc lstsq_other h input_data0 reference =
     (let (input_data, h1) = ndarray_copy h input_data0;
          (exc1, h2) = for_rows (\<lambda>r. Inr (mean_centre r)) input_data input_data
                         [0 ..< shape0 (h1 ! input_data)] h1;
          ref = (case reference of
                   None \<Rightarrow> np_mean_axis0 (h2 ! input_data)
                 | Some r \<Rightarrow> r);
          (data_msc, h3) = zeros_like h2 input_data;
          (exc2, h4) = for_rows (msc_correct lstsq_other ref) input_data data_msc
                         [0 ..< shape0 (h3 ! input_data)] h3
      in case exc2 of
           Some e \<Rightarrow> (Inl e, h4)
         | None \<Rightarrow> (Inr data_msc, h4))"

subsection \<open>smooth\<close>

text \<open>
  \<^verbatim>\<open>
  if window_type == 'flat':
      window = np.ones(filter_win)
  else:
      window = scipy.signal.windows.get_window(window_type, filter_win)
  window = window / np.sum(window)
  for row in range(spectra.shape[0]):
      spectra[row,:] = nd.convolve(spectra[row,:], window, mode=mode)
  return spectra
  \<close>
  The catalogue of named windows, \<open>scipy.signal.windows.get_window\<close>, is a parameter:
  it gives the window or raises.
\<close>

type_synonym window_catalogue = "string \<Rightarrow> int \<Rightarrow> error + float64 list"

text \<open>Lines 73 to 77: the window, normalised to sum 1.\<close>

definition smooth_window :: "window_catalogue \<Rightarrow> int \<Rightarrow> string \<Rightarrow> error + float64 list" where
  "smooth_window get_window filter_win window_type =
     (case (if window_type = ''flat'' then np_ones filter_win
            else get_window window_type filter_win) of
        Inl e \<Rightarrow> Inl e
      | Inr window \<Rightarrow> Inr (map (\<lambda>w. fdiv w (np_sum window)) window))"

definition smooth ::
  "window_catalogue \<Rightarrow> heap \<Rightarrow> addr \<Rightarrow> int \<Rightarrow> string \<Rightarrow> string \<Rightarrow> (error + addr) \<times> heap" where
  "smooth get_window h spectra filter_win window_type mode =
     (case smooth_window get_window filter_win window_type of
        Inl e \<Rightarrow> (Inl e, h)
      | Inr window \<Rightarrow>
          let (exc, h1) = for_rows (\<lambda>r. nd_convolve r window mode) spectra spectra
                            [0 ..< shape0 (h ! spectra)] h
          in case exc of
               Some e \<Rightarrow> (Inl e, h1)
             | None \<Rightarrow> (Inr spectra, h1))"

subsection \<open>savgol\<close>

text \<open>
  \<^verbatim>\<open>
  return scipy.signal.savgol_filter(spectra, filter_win, poly_order, deriv_order, delta=delta, axis=1)
  \<close>
  The function is this call and nothing else. \<open>scipy.signal.savgol_filter\<close> is a
  parameter: from the array it is given to a new array or an exception.
\<close>

type_synonym savgol_filter = "ndarray \<Rightarrow> int \<Rightarrow> int \<Rightarrow> int \<Rightarrow> float64 \<Rightarrow> error + ndarray"

definition savgol ::
  "savgol_filter \<Rightarrow> heap \<Rightarrow> addr \<Rightarrow> int \<Rightarrow> int \<Rightarrow> int \<Rightarrow> float64 \<Rightarrow> (error + addr) \<times> heap" where
  "savgol savgol_filter h spectra filter_win poly_order deriv_order delta =
     (case savgol_filter (h ! spectra) filter_win poly_order deriv_order delta of
        Inl e \<Rightarrow> (Inl e, h)
      | Inr y \<Rightarrow> (let (out, h1) = alloc h y in (Inr out, h1)))"

subsection \<open>Specification vocabulary\<close>

text \<open>
  Running a fallible step over a list: the first exception wins, as in a Python loop.
\<close>

fun map_result :: "('a \<Rightarrow> error + 'b) \<Rightarrow> 'a list \<Rightarrow> error + 'b list" where
  "map_result f [] = Inr []"
| "map_result f (x # xs) =
     (case f x of
        Inl e \<Rightarrow> Inl e
      | Inr y \<Rightarrow> (case map_result f xs of Inl e \<Rightarrow> Inl e | Inr ys \<Rightarrow> Inr (y # ys)))"


text \<open>
  The algorithm of \<open>msc\<close> in the words of the specification, as a function of the
  input matrix alone: mean-centre each row; take the reference (the column means of
  the centred matrix unless one is supplied); fit slope and intercept of each centred
  row against the reference by least squares; correct the row as (row - b) / a.
\<close>

definition msc_spec :: "lstsq \<Rightarrow> ndarray \<Rightarrow> float64 list option \<Rightarrow> error + ndarray" where
  "msc_spec lstsq_other M reference =
     (let centred = map (\<lambda>row. map (\<lambda>x. fsub x (np_mean row)) row) (cells M);
          ref = (case reference of
                   None \<Rightarrow> map (\<lambda>j. np_mean (map (\<lambda>row. row ! j) centred)) [0 ..< shape1 M]
                 | Some r \<Rightarrow> r)
      in case map_result
                (\<lambda>row. case polyfit1 lstsq_other ref row of
                          Inl e \<Rightarrow> Inl e
                        | Inr (a, b) \<Rightarrow> Inr (map (\<lambda>x. fdiv (fsub x b) a) row))
                centred of
           Inl e \<Rightarrow> Inl e
         | Inr rows \<Rightarrow> Inr (M\<lparr>cells := rows\<rparr>))"

text \<open>The reference \<open>msc\<close> regresses against: the one supplied, else the column means of
  the centred matrix.\<close>

definition msc_reference :: "ndarray \<Rightarrow> float64 list option \<Rightarrow> float64 list" where
  "msc_reference M reference =
     (case reference of
        None \<Rightarrow> np_mean_axis0 (M\<lparr>cells := map mean_centre (cells M)\<rparr>)
      | Some r \<Rightarrow> r)"

text \<open>The sum of squared residuals of the line \<open>y = a x + b\<close> on real data.\<close>

definition sse :: "real list \<Rightarrow> real list \<Rightarrow> real \<Rightarrow> real \<Rightarrow> real" where
  "sse xs ys a b = sum_list (map2 (\<lambda>x y. (y - (a * x + b)) * (y - (a * x + b))) xs ys)"


text \<open>An instance of the LAPACK outcome on degenerate data, for concrete runs: it raises.\<close>

definition lstsq_raises :: lstsq where
  "lstsq_raises x y = Inl (LinAlgError ''SVD did not converge in Linear Least Squares'')"


text \<open>
  Instances of the two scipy parameters, for concrete runs. Of the window catalogue,
  the part that needs no trigonometry: the boxcar window under its aliases; a run asks
  it only for these names or for a name scipy does not know. Of the filter, the one
  point that needs no coefficients: with window 1, order 0 and derivative 0 every
  sample is its own fit and the filter returns a copy of its input; a run calls it
  only there.
\<close>

definition boxcar_catalogue :: window_catalogue where
  "boxcar_catalogue window_type n =
     (if window_type \<in> set [''boxcar'', ''box'', ''ones'', ''rect'', ''rectangular'']
      then (if n < 0 then Inl (ValueError ''Window length M must be a non-negative integer'')
            else Inr (replicate (nat n) (Fin 1)))
      else Inl (ValueError ''Unknown window type.''))"

definition savgol_filter_window1 :: savgol_filter where
  "savgol_filter_window1 x window_length polyorder deriv delta =
     (if window_length = 1 \<and> polyorder = 0 \<and> deriv = 0 \<and> 0 < shape1 x then Inr x
      else Inl (ValueError ''polyorder must be less than window_length.''))"

section \<open>Lemmas\<close>

subsection \<open>Evaluating the range\<close>

lemma overflow_threshold_code [code]:
  "overflow_threshold =
     179769313486231580793728971405303415079934132710037826936173778980444968292764750946649017977587207096330286416692887910946555547851940402630657488671505820681908902000708383676273854845817711531764475730270069855571366959622842914819860834936475292719074168444365510704342711559699508093042880177904174497792"
  by (simp add: overflow_threshold_def)

lemma underflow_threshold_code [code]:
  "underflow_threshold = 1 /
     404804506614621236704990693437834614099113299528284236713802716054860679135990693783920767402874248990374155728633623822779617474771586953734026799881477019843034848553132722728933815484186432682479535356945490137124014966849385397236206711298319112681620113024717539104666829230461005064372655017292012526615415482186989568"
  by (simp add: underflow_threshold_def)

lemma smallest_subnormal_code [code]:
  "smallest_subnormal = 1 /
     202402253307310618352495346718917307049556649764142118356901358027430339567995346891960383701437124495187077864316811911389808737385793476867013399940738509921517424276566361364466907742093216341239767678472745068562007483424692698618103355649159556340810056512358769552333414615230502532186327508646006263307707741093494784"
  by (simp add: smallest_subnormal_def)

text \<open>Values of everyday size need no look at the thresholds.\<close>

lemma ieee_result_code [code]:
  "ieee_result x y r =
     (if (x = 0 \<or> 1 / 1048576 \<le> \<bar>x\<bar> \<and> \<bar>x\<bar> \<le> 1048576) \<and>
         (y = 0 \<or> 1 / 1048576 \<le> \<bar>y\<bar> \<and> \<bar>y\<bar> \<le> 1048576) \<and>
         (r = 0 \<or> 1 / 1048576 \<le> \<bar>r\<bar> \<and> \<bar>r\<bar> \<le> 1048576)
      then Fin r
      else if float64_magnitude x \<and> float64_magnitude y then
        (if overflow_threshold \<le> \<bar>r\<bar> then (if 0 < r then PInf else NInf)
         else if \<bar>r\<bar> \<le> underflow_threshold then Fin 0
         else Fin r)
      else Fin r)"
  by (auto simp: ieee_result_def overflow_threshold_def underflow_threshold_def)

lemma ieee_result_same: "r = x \<Longrightarrow> ieee_result x y r = Fin r"
  by (auto simp: ieee_result_def float64_magnitude_def underflow_threshold_def
      smallest_subnormal_def)

lemma ieee_result_one: "ieee_result x y 1 = Fin 1"
  by (simp add: ieee_result_def overflow_threshold_def underflow_threshold_def)

subsection \<open>The loops\<close>

lemma for_rows_frame:
  "for_rows f src dst is h = (exc, h') \<Longrightarrow>
     \<exists>C. length C = length (cells (h ! dst)) \<and> h' = h[dst := (h ! dst)\<lparr>cells := C\<rparr>]"
proof (induction "is" arbitrary: h)
  case Nil
  then have "h' = h[dst := (h ! dst)\<lparr>cells := cells (h ! dst)\<rparr>]" by simp
  then show ?case by blast
next
  case (Cons i "is")
  show ?case
  proof (cases "f (get_row h src i)")
    case (Inl e)
    with Cons.prems have "h' = h[dst := (h ! dst)\<lparr>cells := cells (h ! dst)\<rparr>]" by simp
    then show ?thesis by blast
  next
    case (Inr r)
    with Cons.prems have step: "for_rows f src dst is (set_row h dst i r) = (exc, h')" by simp
    from Cons.IH[OF step] obtain C where
      C: "length C = length (cells (set_row h dst i r ! dst))"
         "h' = (set_row h dst i r)[dst := (set_row h dst i r ! dst)\<lparr>cells := C\<rparr>]"
      by blast
    show ?thesis
    proof (cases "dst < length h")
      case True
      with C have "length C = length (cells (h ! dst)) \<and> h' = h[dst := (h ! dst)\<lparr>cells := C\<rparr>]"
        by (simp add: set_row_def)
      then show ?thesis by blast
    next
      case False
      then have "set_row h dst i r = h" by (simp add: set_row_def not_less list_update_beyond)
      with C show ?thesis by auto
    qed
  qed
qed

lemma get_row_set_row_other:
  "i \<noteq> k \<Longrightarrow> get_row (set_row h dst k r) src i = get_row h src i"
  by (cases "src = dst"; cases "dst < length h") (simp_all add: get_row_def set_row_def not_less list_update_beyond)

lemma for_rows_upt:
  assumes "dst < length h" and "n \<le> length (cells (h ! dst))" and "k \<le> n"
  shows "for_rows f src dst [k ..< n] h = (exc, h') \<Longrightarrow>
     (case map_result f (map (get_row h src) [k ..< n]) of
        Inl e \<Rightarrow> exc = Some e
      | Inr rs \<Rightarrow> exc = None \<and>
          cells (h' ! dst) = take k (cells (h ! dst)) @ rs @ drop n (cells (h ! dst)))"
  using assms
proof (induction "n - k" arbitrary: k h)
  case 0
  then have "[k ..< n] = []" by simp
  with 0 show ?case by simp
next
  case (Suc d)
  then have kn: "k < n" by simp
  then have upt: "[k ..< n] = k # [Suc k ..< n]" by (simp add: upt_conv_Cons)
  show ?case
  proof (cases "f (get_row h src k)")
    case (Inl e)
    with Suc.prems upt show ?thesis by simp
  next
    case (Inr r)
    let ?h1 = "set_row h dst k r"
    from Suc.prems Inr upt have step: "for_rows f src dst [Suc k ..< n] ?h1 = (exc, h')" by simp
    have d: "d = n - Suc k" using Suc.hyps(2) by simp
    have l1: "dst < length ?h1" using Suc.prems by (simp add: set_row_def)
    have c1: "cells (?h1 ! dst) = (cells (h ! dst))[k := r]"
      using Suc.prems by (simp add: set_row_def)
    then have l2: "n \<le> length (cells (?h1 ! dst))" using Suc.prems by simp
    have same: "map (get_row ?h1 src) [Suc k ..< n] = map (get_row h src) [Suc k ..< n]"
      by (rule map_cong) (simp_all add: get_row_set_row_other)
    have l3: "Suc k \<le> n" using kn by simp
    from Suc.hyps(1)[OF d step l1 l2 l3]
    have IH: "(case map_result f (map (get_row h src) [Suc k ..< n]) of
        Inl e \<Rightarrow> exc = Some e
      | Inr rs \<Rightarrow> exc = None \<and>
          cells (h' ! dst) = take (Suc k) ((cells (h ! dst))[k := r]) @ rs @ drop n ((cells (h ! dst))[k := r]))"
      unfolding same c1 .
    have tk: "take (Suc k) ((cells (h ! dst))[k := r]) = take k (cells (h ! dst)) @ [r]"
      using kn Suc.prems by (simp add: take_Suc_conv_app_nth)
    have dr: "drop n ((cells (h ! dst))[k := r]) = drop n (cells (h ! dst))"
      using kn by simp
    from IH show ?thesis
      by (simp add: upt Inr tk dr split: sum.splits)
  qed
qed

lemma map_result_total: "map_result (\<lambda>x. Inr (g x)) xs = Inr (map g xs)"
  by (induction xs) simp_all

lemma map_get_row: "length (cells (h ! a)) = n \<Longrightarrow> map (get_row h a) [0 ..< n] = cells (h ! a)"
  by (auto simp: get_row_def intro: nth_equalityI)

lemma for_rows_all:
  assumes run: "for_rows f src dst [0 ..< n] h = (exc, h')"
    and dst: "dst < length h"
    and nd: "length (cells (h ! dst)) = n" and ns: "length (cells (h ! src)) = n"
  shows "case map_result f (cells (h ! src)) of
           Inl e \<Rightarrow> exc = Some e
         | Inr rs \<Rightarrow> exc = None \<and> h' = h[dst := (h ! dst)\<lparr>cells := rs\<rparr>]"
proof -
  from for_rows_frame[OF run] obtain C where
    C: "h' = h[dst := (h ! dst)\<lparr>cells := C\<rparr>]" by blast
  with dst have cC: "cells (h' ! dst) = C" by simp
  have "case map_result f (map (get_row h src) [0 ..< n]) of
        Inl e \<Rightarrow> exc = Some e
      | Inr rs \<Rightarrow> exc = None \<and>
          cells (h' ! dst) = take 0 (cells (h ! dst)) @ rs @ drop n (cells (h ! dst))"
    by (rule for_rows_upt[OF dst _ _ run]) (simp_all add: nd)
  then have *: "case map_result f (cells (h ! src)) of
        Inl e \<Rightarrow> exc = Some e
      | Inr rs \<Rightarrow> exc = None \<and> C = rs"
    by (simp add: map_get_row[OF ns] nd cC split: sum.splits)
  show ?thesis
  proof (cases "map_result f (cells (h ! src))")
    case (Inl e)
    with * show ?thesis by simp
  next
    case (Inr rs)
    with * C show ?thesis by simp
  qed
qed

lemma snv_eq:
  assumes a: "input_data < length h" and wf: "wf_ndarray (h ! input_data)"
  shows "snv h input_data =
           (length h, h @ [(h ! input_data)\<lparr>cells := map snv_row (cells (h ! input_data))\<rparr>])"
proof -
  let ?A = "h ! input_data"
  let ?Z = "?A\<lparr>cells := replicate (shape0 ?A) (replicate (shape1 ?A) (Fin 0))\<rparr>"
  let ?h1 = "h @ [?Z]"
  have z: "zeros_like h input_data = (length h, ?h1)" by (simp add: zeros_like_def alloc_def)
  have A1: "?h1 ! input_data = ?A" using a by (simp add: nth_append)
  have n: "length (cells ?A) = shape0 ?A" using wf by (simp add: wf_ndarray_def)
  obtain exc h2 where run:
    "for_rows (\<lambda>r. Inr (snv_row r)) input_data (length h) [0 ..< shape0 ?A] ?h1 = (exc, h2)"
    by (cases "for_rows (\<lambda>r. Inr (snv_row r)) input_data (length h) [0 ..< shape0 ?A] ?h1") blast
  have "case map_result (\<lambda>r. Inr (snv_row r)) (cells (?h1 ! input_data)) of
           Inl e \<Rightarrow> exc = Some e
         | Inr rs \<Rightarrow> exc = None \<and> h2 = ?h1[length h := (?h1 ! length h)\<lparr>cells := rs\<rparr>]"
    by (rule for_rows_all[OF run]) (simp_all add: A1 n)
  then have h2: "h2 = h @ [?A\<lparr>cells := map snv_row (cells ?A)\<rparr>]"
    by (simp add: map_result_total A1)
  show ?thesis
    by (simp add: snv_def z A1 run h2)
qed


subsection \<open>The loops of msc\<close>

lemma for_rows_run:
  assumes dst: "dst < length h"
    and nd: "length (cells (h ! dst)) = n" and ns: "length (cells (h ! src)) = n"
  shows "\<exists>C. length C = n \<and> snd (for_rows f src dst [0 ..< n] h) = h[dst := (h ! dst)\<lparr>cells := C\<rparr>] \<and>
           (case map_result f (cells (h ! src)) of
              Inl e \<Rightarrow> fst (for_rows f src dst [0 ..< n] h) = Some e
            | Inr rs \<Rightarrow> fst (for_rows f src dst [0 ..< n] h) = None \<and> C = rs)"
proof -
  obtain exc h' where run: "for_rows f src dst [0 ..< n] h = (exc, h')"
    by (cases "for_rows f src dst [0 ..< n] h") blast
  from for_rows_frame[OF run] obtain C where
    C: "length C = length (cells (h ! dst))" "h' = h[dst := (h ! dst)\<lparr>cells := C\<rparr>]" by blast
  have *: "case map_result f (cells (h ! src)) of
           Inl e \<Rightarrow> exc = Some e
         | Inr rs \<Rightarrow> exc = None \<and> h' = h[dst := (h ! dst)\<lparr>cells := rs\<rparr>]"
    by (rule for_rows_all[OF run dst nd ns])
  have "case map_result f (cells (h ! src)) of
              Inl e \<Rightarrow> exc = Some e
            | Inr rs \<Rightarrow> exc = None \<and> C = rs"
  proof (cases "map_result f (cells (h ! src))")
    case (Inl e)
    with * show ?thesis by simp
  next
    case (Inr rs)
    with * have "h' = h[dst := (h ! dst)\<lparr>cells := rs\<rparr>]" and e: "exc = None" by simp_all
    with C(2) have "cells (h[dst := (h ! dst)\<lparr>cells := C\<rparr>] ! dst) =
        cells (h[dst := (h ! dst)\<lparr>cells := rs\<rparr>] ! dst)"
      by simp
    with dst have "C = rs" by simp
    with e Inr show ?thesis by simp
  qed
  with C nd have "length C = n \<and> h' = h[dst := (h ! dst)\<lparr>cells := C\<rparr>] \<and>
           (case map_result f (cells (h ! src)) of
              Inl e \<Rightarrow> exc = Some e
            | Inr rs \<Rightarrow> exc = None \<and> C = rs)" by simp
  then show ?thesis unfolding run fst_conv snd_conv by (rule exI)
qed

lemma msc_run:
  fixes reference :: "float64 list option"
  assumes a: "a < length h" and wf: "wf_ndarray (h ! a)"
  defines "centred \<equiv> map mean_centre (cells (h ! a))"
  defines "ref \<equiv> (case reference of
                     None \<Rightarrow> np_mean_axis0 ((h ! a)\<lparr>cells := centred\<rparr>)
                   | Some r \<Rightarrow> r)"
  shows "\<exists>D. snd (msc lo h a reference) = h @ [(h ! a)\<lparr>cells := centred\<rparr>, (h ! a)\<lparr>cells := D\<rparr>] \<and>
           length D = shape0 (h ! a) \<and>
           (case map_result (msc_correct lo ref) centred of
              Inl e \<Rightarrow> fst (msc lo h a reference) = Inl e
            | Inr rows \<Rightarrow> fst (msc lo h a reference) = Inr (Suc (length h)) \<and> D = rows)"
proof -
  let ?A = "h ! a"
  let ?n = "shape0 ?A"
  let ?h1 = "h @ [?A]"
  let ?c = "length h"
  have n: "length (cells ?A) = ?n" using wf by (simp add: wf_ndarray_def)
  have cp: "ndarray_copy h a = (?c, ?h1)" by (simp add: ndarray_copy_def alloc_def)
  let ?loop1 = "for_rows (\<lambda>r. Inr (mean_centre r)) ?c ?c [0 ..< ?n] ?h1"
  from for_rows_run[of ?c ?h1 ?n ?c "\<lambda>r. Inr (mean_centre r)"]
  have l1: "?loop1 = (None, h @ [?A\<lparr>cells := centred\<rparr>])"
    by (cases ?loop1) (auto simp: n map_result_total centred_def)
  let ?h2 = "h @ [?A\<lparr>cells := centred\<rparr>]"
  let ?Z = "?A\<lparr>cells := replicate ?n (replicate (shape1 ?A) (Fin 0))\<rparr>"
  let ?h3 = "h @ [?A\<lparr>cells := centred\<rparr>, ?Z]"
  let ?d = "Suc (length h)"
  have z: "zeros_like ?h2 ?c = (?d, ?h3)" by (simp add: zeros_like_def alloc_def)
  let ?loop2 = "for_rows (msc_correct lo ref) ?c ?d [0 ..< ?n] ?h3"
  have lc: "length centred = ?n" by (simp add: centred_def n)
  from for_rows_run[of ?d ?h3 ?n ?c "msc_correct lo ref"]
  obtain D where D: "length D = ?n" "snd ?loop2 = ?h3[?d := (?h3 ! ?d)\<lparr>cells := D\<rparr>]"
    "case map_result (msc_correct lo ref) (cells (?h3 ! ?c)) of
        Inl e \<Rightarrow> fst ?loop2 = Some e
      | Inr rs \<Rightarrow> fst ?loop2 = None \<and> D = rs"
    by (auto simp: nth_append lc)
  have h4: "snd ?loop2 = h @ [?A\<lparr>cells := centred\<rparr>, ?A\<lparr>cells := D\<rparr>]"
    using D(2) by (simp add: nth_append list_update_append)
  have c3: "cells (?h3 ! ?c) = centred" by (simp add: nth_append)
  obtain exc2 h4 where l2: "?loop2 = (exc2, h4)" by (cases ?loop2) blast
  have r: "(case reference of None \<Rightarrow> np_mean_axis0 (?h2 ! ?c) | Some r \<Rightarrow> r) = ref"
    by (simp add: ref_def split: option.splits)
  have m: "msc lo h a reference =
        (case exc2 of Some e \<Rightarrow> (Inl e, h4) | None \<Rightarrow> (Inr ?d, h4))"
    using l2[unfolded ref_def]
    by (cases reference) (simp_all add: msc_def cp l1 z nth_append)
  show ?thesis
  proof (cases "map_result (msc_correct lo ref) centred")
    case (Inl e)
    with D(3) have "exc2 = Some e" by (simp add: c3 l2)
    with m h4 D(1) Inl l2 show ?thesis by auto
  next
    case (Inr rows)
    with D(3) have "exc2 = None" "D = rows" by (simp_all add: c3 l2)
    with m h4 D(1) Inr l2 show ?thesis by auto
  qed
qed

subsection \<open>Least squares\<close>

text \<open>Sums over paired data.\<close>

lemma sum_resid:
  "sum_list (map (\<lambda>(x, y). y - (a * x + b)) ps) =
     sum_list (map snd ps) - a * sum_list (map fst ps) - real (length ps) * b" for a b :: real
  by (induction ps) (auto simp: algebra_simps)

lemma sum_resid_x:
  "sum_list (map (\<lambda>(x, y). (y - (a * x + b)) * x) ps) =
     sum_list (map (\<lambda>(x, y). x * y) ps) - a * sum_list (map (\<lambda>(x, y). x * x) ps)
       - b * sum_list (map fst ps)" for a b :: real
  by (induction ps) (auto simp: algebra_simps)

lemma sum_cross:
  "sum_list (map (\<lambda>(x, y). (x - xm) * (y - ym)) ps) =
     sum_list (map (\<lambda>(x, y). x * y) ps) - xm * sum_list (map snd ps)
       - ym * sum_list (map fst ps) + real (length ps) * (xm * ym)" for xm ym :: real
  by (induction ps) (auto simp: algebra_simps)

lemma sum_sq:
  "sum_list (map (\<lambda>(x, y). (x - xm) * (x - xm)) ps) =
     sum_list (map (\<lambda>(x, y). x * x) ps) - 2 * xm * sum_list (map fst ps)
       + real (length ps) * (xm * xm)" for xm :: real
  by (induction ps) (auto simp: algebra_simps)

lemma sse_expand:
  "sum_list (map (\<lambda>(x, y). (y - (a' * x + b')) * (y - (a' * x + b'))) ps) =
     sum_list (map (\<lambda>(x, y). (y - (a * x + b)) * (y - (a * x + b))) ps)
     + 2 * (a - a') * sum_list (map (\<lambda>(x, y). (y - (a * x + b)) * x) ps)
     + 2 * (b - b') * sum_list (map (\<lambda>(x, y). y - (a * x + b)) ps)
     + sum_list (map (\<lambda>(x, y). ((a - a') * x + (b - b')) * ((a - a') * x + (b - b'))) ps)"
  for a b a' b' :: real
  by (induction ps) (auto simp: algebra_simps)

lemma ols_optimal:
  fixes ps :: "(real \<times> real) list"
  assumes ne: "ps \<noteq> []"
  defines "n \<equiv> real (length ps)"
  defines "xm \<equiv> sum_list (map fst ps) / n" and "ym \<equiv> sum_list (map snd ps) / n"
  defines "sxx \<equiv> sum_list (map (\<lambda>(x, y). (x - xm) * (x - xm)) ps)"
  defines "sxy \<equiv> sum_list (map (\<lambda>(x, y). (x - xm) * (y - ym)) ps)"
  assumes full: "sxx \<noteq> 0"
  defines "a \<equiv> sxy / sxx"
  defines "b \<equiv> ym - a * xm"
  shows "sum_list (map (\<lambda>(x, y). (y - (a * x + b)) * (y - (a * x + b))) ps)
       \<le> sum_list (map (\<lambda>(x, y). (y - (a' * x + b')) * (y - (a' * x + b'))) ps)"
proof -
  have n0: "n \<noteq> 0" using ne by (simp add: n_def)
  have sx: "sum_list (map fst ps) = n * xm" using n0 by (simp add: xm_def)
  have sy: "sum_list (map snd ps) = n * ym" using n0 by (simp add: ym_def)
  have "sum_list (map (\<lambda>(x, y). y - (a * x + b)) ps) = n * ym - a * (n * xm) - n * b"
    unfolding sum_resid sx sy n_def[symmetric] ..
  also have "\<dots> = 0" by (simp add: b_def algebra_simps)
  finally have r0: "sum_list (map (\<lambda>(x, y). y - (a * x + b)) ps) = 0" .
  have "sxy = sum_list (map (\<lambda>(x, y). x * y) ps) - xm * (n * ym) - ym * (n * xm) + n * (xm * ym)"
    unfolding sxy_def sum_cross sx sy n_def[symmetric] ..
  then have xy: "sum_list (map (\<lambda>(x, y). x * y) ps) = sxy + n * (xm * ym)"
    by (simp add: algebra_simps)
  have "sxx = sum_list (map (\<lambda>(x, y). x * x) ps) - 2 * xm * (n * xm) + n * (xm * xm)"
    unfolding sxx_def sum_sq sx n_def[symmetric] ..
  then have xx: "sum_list (map (\<lambda>(x, y). x * x) ps) = sxx + n * (xm * xm)"
    by (simp add: algebra_simps)
  have asxx: "a * sxx = sxy" using full by (simp add: a_def)
  have "sum_list (map (\<lambda>(x, y). (y - (a * x + b)) * x) ps)
        = sxy + n * (xm * ym) - a * (sxx + n * (xm * xm)) - b * (n * xm)"
    unfolding sum_resid_x xy xx sx ..
  also have "\<dots> = sxy - a * sxx" by (simp add: b_def algebra_simps)
  finally have rx0: "sum_list (map (\<lambda>(x, y). (y - (a * x + b)) * x) ps) = 0"
    by (simp add: asxx)
  have "0 \<le> sum_list (map (\<lambda>(x, y). ((a - a') * x + (b - b')) * ((a - a') * x + (b - b'))) ps)"
    by (rule sum_list_nonneg) auto
  then show ?thesis
    by (simp add: sse_expand[of a' b' ps a b] r0 rx0)
qed

lemma sxx_zero_all_equal:
  fixes xs :: "real list"
  assumes "sum_list (map (\<lambda>x. (x - m) * (x - m)) xs) = 0"
  shows "\<forall>x\<in>set xs. x = m"
proof -
  have "\<forall>v\<in>set (map (\<lambda>x. (x - m) * (x - m)) xs). v = 0"
    using assms by (subst (asm) sum_list_nonneg_eq_0_iff) auto
  then show ?thesis by auto
qed

lemma polyfit1_Fin:
  fixes ps :: "(real \<times> real) list"
  assumes ne: "ps \<noteq> []"
  defines "n \<equiv> real (length ps)"
  defines "xm \<equiv> sum_list (map fst ps) / n" and "ym \<equiv> sum_list (map snd ps) / n"
  defines "sxx \<equiv> sum_list (map (\<lambda>(x, y). (x - xm) * (x - xm)) ps)"
  defines "sxy \<equiv> sum_list (map (\<lambda>(x, y). (x - xm) * (y - ym)) ps)"
  assumes full: "sxx \<noteq> 0"
  shows "polyfit1 lo (map (\<lambda>p. Fin (fst p)) ps) (map (\<lambda>p. Fin (snd p)) ps) =
           Inr (Fin (sxy / sxx), Fin (ym - sxy / sxx * xm))"
proof -
  let ?x = "map (\<lambda>p. Fin (fst p)) ps" and ?y = "map (\<lambda>p. Fin (snd p)) ps"
  have rx: "map real_of ?x = map fst ps" and ry: "map real_of ?y = map snd ps"
    by (simp_all add: comp_def)
  have fx: "list_all is_finite ?x" and fy: "list_all is_finite ?y"
    by (simp_all add: list_all_iff)
  have lx: "real (length (map fst ps)) = n" and ly: "real (length (map snd ps)) = n"
    by (simp_all add: n_def)
  have sxx': "sum_list (map (\<lambda>u. (u - xm) * (u - xm)) (map fst ps)) = sxx"
    by (simp add: sxx_def comp_def case_prod_unfold)
  have sxy': "sum_list (map2 (\<lambda>u v. (u - xm) * (v - ym)) (map fst ps) (map snd ps)) = sxy"
    by (simp add: sxy_def zip_map_fst_snd)
  have "polyfit1 lo ?x ?y =
          (if ?x = [] then Inl (TypeError ''expected non-empty vector for x'')
           else if length ?x \<noteq> length ?y
             then Inl (TypeError ''expected x and y to have same length'')
           else if list_all is_finite ?x \<and> list_all is_finite ?y \<and> sxx \<noteq> 0
             then Inr (Fin (sxy / sxx), Fin (ym - sxy / sxx * xm))
             else lo ?x ?y)"
    unfolding polyfit1_def Let_def rx ry lx ly xm_def[symmetric] ym_def[symmetric] sxx' sxy' ..
  also have "\<dots> = Inr (Fin (sxy / sxx), Fin (ym - sxy / sxx * xm))"
    using ne full fx fy by simp
  finally show ?thesis .
qed

lemma polyfit1_least_squares:
  assumes fit: "polyfit1 lo (map Fin xs) (map Fin ys) = Inr (a, b)"
    and full: "\<exists>x\<in>set xs. x \<noteq> hd xs"
  shows "\<exists>a0 b0. a = Fin a0 \<and> b = Fin b0 \<and> (\<forall>a' b'. sse xs ys a0 b0 \<le> sse xs ys a' b')"
proof -
  from fit have ne: "xs \<noteq> []" and len: "length xs = length ys"
    by (auto simp: polyfit1_def split: if_splits)
  let ?ps = "zip xs ys"
  have px: "map fst ?ps = xs" and py: "map snd ?ps = ys" using len by simp_all
  have pne: "?ps \<noteq> []" using ne len by (cases xs; cases ys) auto
  let ?n = "real (length ?ps)"
  let ?xm = "sum_list (map fst ?ps) / ?n" and ?ym = "sum_list (map snd ?ps) / ?n"
  let ?sxx = "sum_list (map (\<lambda>(x, y). (x - ?xm) * (x - ?xm)) ?ps)"
  let ?sxy = "sum_list (map (\<lambda>(x, y). (x - ?xm) * (y - ?ym)) ?ps)"
  have sxx_xs: "?sxx = sum_list (map (\<lambda>x. (x - ?xm) * (x - ?xm)) xs)"
  proof -
    have "?sxx = sum_list (map (\<lambda>x. (x - ?xm) * (x - ?xm)) (map fst ?ps))"
      by (simp only: map_map comp_def case_prod_unfold)
    then show ?thesis by (simp only: px)
  qed
  have full': "?sxx \<noteq> 0"
  proof
    assume "?sxx = 0"
    with sxx_xs have all: "\<forall>x\<in>set xs. x = ?xm" by (intro sxx_zero_all_equal) simp
    have "hd xs \<in> set xs" using ne by simp
    with all have h: "hd xs = ?xm" by blast
    from full obtain x where x: "x \<in> set xs" "x \<noteq> hd xs" by blast
    from all x(1) have "x = ?xm" by blast
    with h x(2) show False by simp
  qed
  have "map (\<lambda>p. Fin (fst p)) ?ps = map Fin (map fst ?ps)" by (simp only: map_map comp_def)
  then have mapx: "map (\<lambda>p. Fin (fst p)) ?ps = map Fin xs" by (simp only: px)
  have "map (\<lambda>p. Fin (snd p)) ?ps = map Fin (map snd ?ps)" by (simp only: map_map comp_def)
  then have mapy: "map (\<lambda>p. Fin (snd p)) ?ps = map Fin ys" by (simp only: py)
  from polyfit1_Fin[OF pne full', of lo] fit
  have a: "a = Fin (?sxy / ?sxx)" and b: "b = Fin (?ym - ?sxy / ?sxx * ?xm)"
    by (simp_all add: mapx mapy)
  have "sse xs ys (?sxy / ?sxx) (?ym - ?sxy / ?sxx * ?xm) \<le> sse xs ys a' b'" for a' b'
    unfolding sse_def by (rule ols_optimal[OF pne full'])
  with a b show ?thesis by blast
qed

subsection \<open>The loop of smooth\<close>

lemma nd_convolve_length: "nd_convolve r w mode = Inr r' \<Longrightarrow> length r' = length r"
  by (auto simp: nd_convolve_def split: if_splits option.splits)

lemma nd_convolve_fails_on_all:
  "nd_convolve r w mode = Inl e \<Longrightarrow> nd_convolve r' w mode = Inl e"
  by (auto simp: nd_convolve_def split: if_splits option.splits)

lemma map_result_Inl: "map_result f xs = Inl e \<Longrightarrow> \<exists>x\<in>set xs. f x = Inl e"
  by (induction xs) (auto split: sum.splits)

lemma map_result_Inr:
  "map_result f xs = Inr ys \<Longrightarrow> length ys = length xs \<and> (\<forall>i < length xs. f (xs ! i) = Inr (ys ! i))"
proof (induction xs arbitrary: ys)
  case Nil
  then show ?case by simp
next
  case (Cons x xs)
  then obtain y ys' where y: "f x = Inr y" and ys': "map_result f xs = Inr ys'" and eq: "ys = y # ys'"
    by (auto split: sum.splits)
  from Cons.IH[OF ys'] have "length ys' = length xs" and "\<forall>i < length xs. f (xs ! i) = Inr (ys' ! i)"
    by simp_all
  with y eq show ?case by (auto simp: nth_Cons split: nat.splits)
qed

lemma for_rows_first_fails:
  "0 < n \<Longrightarrow> f (get_row h src 0) = Inl e \<Longrightarrow> for_rows f src dst [0 ..< n] h = (Some e, h)"
  by (simp add: upt_conv_Cons)

lemma update_same_cells: "a < length h \<Longrightarrow> h[a := (h ! a)\<lparr>cells := cells (h ! a)\<rparr>] = h"
  by (simp add: list_update_same_conv)

lemma smooth_run:
  assumes a: "a < length h" and wf: "wf_ndarray (h ! a)"
  shows "smooth gw h a fw wt mode =
     (case smooth_window gw fw wt of
        Inl e \<Rightarrow> (Inl e, h)
      | Inr w \<Rightarrow>
          (case map_result (\<lambda>r. nd_convolve r w mode) (cells (h ! a)) of
             Inl e \<Rightarrow> (Inl e, h)
           | Inr rows \<Rightarrow> (Inr a, h[a := (h ! a)\<lparr>cells := rows\<rparr>])))"
proof (cases "smooth_window gw fw wt")
  case (Inl e)
  then show ?thesis by (simp add: smooth_def)
next
  case (Inr w)
  let ?A = "h ! a"
  let ?n = "shape0 ?A"
  let ?f = "\<lambda>r. nd_convolve r w mode"
  let ?loop = "for_rows ?f a a [0 ..< ?n] h"
  have n: "length (cells ?A) = ?n" using wf by (simp add: wf_ndarray_def)
  have sm: "smooth gw h a fw wt mode =
      (case fst ?loop of Some e \<Rightarrow> (Inl e, snd ?loop) | None \<Rightarrow> (Inr a, snd ?loop))"
    by (cases ?loop) (simp add: smooth_def Inr split: option.splits)
  show ?thesis
  proof (cases "map_result ?f (cells ?A)")
    case (Inl e)
    then obtain x where x: "x \<in> set (cells ?A)" "?f x = Inl e" using map_result_Inl by blast
    then have pos: "0 < ?n" using n by (cases "cells ?A") auto
    have "?f (get_row h a 0) = Inl e" using x(2) by (rule nd_convolve_fails_on_all)
    with pos have "?loop = (Some e, h)" by (intro for_rows_first_fails)
    with sm Inl Inr show ?thesis by simp
  next
    case rows: (Inr rows)
    from for_rows_run[OF a n n, of ?f] rows
    have "fst ?loop = None" and "snd ?loop = h[a := ?A\<lparr>cells := rows\<rparr>]" by auto
    with sm rows Inr show ?thesis by simp
  qed
qed

lemma fmul_one: "fmul (Fin 1) x = x"
proof (cases x)
  case (Fin v)
  have "ieee_result v 1 v = Fin v" by (rule ieee_result_same) simp
  moreover have "ieee_result 1 v v = ieee_result v 1 v" by (simp add: ieee_result_def conj_commute)
  ultimately show ?thesis using Fin by simp
qed simp_all

lemma fadd_zero: "fadd x (Fin 0) = x"
proof (cases x)
  case (Fin v)
  have "ieee_result v 0 v = Fin v" by (rule ieee_result_same) simp
  then show ?thesis using Fin by simp
qed simp_all



lemma extended_inside: "i < length xs \<Longrightarrow> extended m xs (int i) = xs ! i"
  by (simp add: extended_def extend_index_def)

lemma nd_convolve_unit:
  assumes "extend_mode_to_code mode \<noteq> None"
  shows "nd_convolve r [Fin 1] mode = Inr r"
proof -
  from assms obtain m where m: "extend_mode_to_code mode = Some m" by blast
  have f: "filter (\<lambda>j. in_footprint ([Fin 1] ! j)) [0 ..< length [Fin 1 :: float64]] = [0]"
    by simp
  have "map (\<lambda>i. np_sum [fmul (Fin 1) (extended m r (int i))]) [0 ..< length r] = map ((!) r) [0 ..< length r]"
    by (rule map_cong) (simp_all add: np_sum_def fmul_one fadd_zero extended_inside)
  then show ?thesis
    unfolding nd_convolve_def m f by (simp add: map_nth)
qed

lemma smooth_window_flat_1: "smooth_window gw 1 ''flat'' = Inr [Fin 1]"
  by (simp add: smooth_window_def np_ones_def np_sum_def ieee_result_one)

lemma map_result_first: "xs \<noteq> [] \<Longrightarrow> f (hd xs) = Inl e \<Longrightarrow> map_result f xs = Inl e"
  by (cases xs) simp_all

subsection \<open>What each function returns and leaves behind\<close>

lemma msc_correct_length: "msc_correct lo ref r = Inr r' \<Longrightarrow> length r' = length r"
  by (auto simp: msc_correct_def split: sum.splits)

lemma msc_correct_mismatch:
  assumes "length ref \<noteq> length r"
  shows "msc_correct lo ref r =
           Inl (TypeError (if ref = [] then ''expected non-empty vector for x''
                           else ''expected x and y to have same length''))"
  using assms by (simp add: msc_correct_def polyfit1_def)

lemma wf_rows:
  assumes wf: "wf_ndarray A" and res: "map_result f (cells A) = Inr rows"
    and len: "\<And>r r'. f r = Inr r' \<Longrightarrow> length r' = length r"
  shows "wf_ndarray (A\<lparr>cells := rows\<rparr>)"
proof -
  from map_result_Inr[OF res] have l: "length rows = length (cells A)"
    and each: "\<forall>i < length (cells A). f (cells A ! i) = Inr (rows ! i)" by simp_all
  have "length (rows ! i) = shape1 A" if "i < length rows" for i
  proof -
    from that l each have "f (cells A ! i) = Inr (rows ! i)" by simp
    then have "length (rows ! i) = length (cells A ! i)" by (rule len)
    also have "\<dots> = shape1 A" using wf that l by (simp add: wf_ndarray_def list_all_length)
    finally show ?thesis .
  qed
  then show ?thesis using wf l by (simp add: wf_ndarray_def list_all_length)
qed

lemma wf_map_rows:
  assumes wf: "wf_ndarray A" and len: "\<And>r. length (g r) = length r"
  shows "wf_ndarray (A\<lparr>cells := map g (cells A)\<rparr>)"
  using wf by (simp add: wf_ndarray_def list_all_length len)

lemma mean_centre_length: "length (mean_centre r) = length r"
  by (simp add: mean_centre_def)

lemma snv_row_length: "length (snv_row r) = length r"
  by (simp add: snv_row_def)

lemma msc_result:
  assumes a: "a < length h" and wf: "wf_ndarray (h ! a)"
    and run: "msc lo h a reference = (r, h')"
  shows "take (length h) h' = h \<and> length h' = Suc (Suc (length h)) \<and>
         (\<forall>out. r = Inr out \<longrightarrow> out = Suc (length h) \<and>
             shape (h' ! out) = shape (h ! a) \<and> wf_ndarray (h' ! out))"
proof -
  let ?A = "h ! a"
  let ?centred = "map mean_centre (cells ?A)"
  let ?ref = "case reference of
                None \<Rightarrow> np_mean_axis0 (?A\<lparr>cells := ?centred\<rparr>)
              | Some r \<Rightarrow> r"
  from msc_run[OF a wf, of lo reference] obtain D where
    D0: "snd (msc lo h a reference) = h @ [?A\<lparr>cells := ?centred\<rparr>, ?A\<lparr>cells := D\<rparr>]"
       "case map_result (msc_correct lo ?ref) ?centred of
          Inl e \<Rightarrow> fst (msc lo h a reference) = Inl e
        | Inr rows \<Rightarrow> fst (msc lo h a reference) = Inr (Suc (length h)) \<and> D = rows"
    by blast
  note D = D0[unfolded run fst_conv snd_conv]
  have wfc: "wf_ndarray (?A\<lparr>cells := ?centred\<rparr>)"
    by (rule wf_map_rows[OF wf]) (rule mean_centre_length)
  have "out = Suc (length h) \<and> shape (h' ! out) = shape ?A \<and> wf_ndarray (h' ! out)"
    if "r = Inr out" for out
  proof (cases "map_result (msc_correct lo ?ref) ?centred")
    case (Inl e)
    with D(2) that show ?thesis by simp
  next
    case (Inr rows)
    with D(2) that have o: "out = Suc (length h)" and d: "D = rows" by simp_all
    have "wf_ndarray ((?A\<lparr>cells := ?centred\<rparr>)\<lparr>cells := rows\<rparr>)"
    proof (rule wf_rows[where f = "msc_correct lo ?ref", OF wfc])
      show "map_result (msc_correct lo ?ref) (cells (?A\<lparr>cells := ?centred\<rparr>)) = Inr rows"
        by (simp add: Inr)
    qed (rule msc_correct_length)
    then show ?thesis using o d D(1) by (simp add: nth_append shape_def)
  qed
  with D(1) show ?thesis by simp
qed

lemma smooth_result:
  assumes a: "a < length h" and wf: "wf_ndarray (h ! a)"
    and run: "smooth gw h a fw wt mode = (Inr out, h')"
  shows "out = a \<and> (\<exists>window rows. smooth_window gw fw wt = Inr window \<and>
            map_result (\<lambda>r. nd_convolve r window mode) (cells (h ! a)) = Inr rows \<and>
            h' = h[a := (h ! a)\<lparr>cells := rows\<rparr>] \<and> wf_ndarray ((h ! a)\<lparr>cells := rows\<rparr>))"
proof -
  from run smooth_run[OF a wf, of gw fw wt mode]
  obtain w where w: "smooth_window gw fw wt = Inr w" by (cases "smooth_window gw fw wt") auto
  with run smooth_run[OF a wf, of gw fw wt mode]
  obtain rows where rows: "map_result (\<lambda>r. nd_convolve r w mode) (cells (h ! a)) = Inr rows"
    by (cases "map_result (\<lambda>r. nd_convolve r w mode) (cells (h ! a))") auto
  from run smooth_run[OF a wf, of gw fw wt mode] w rows
  have o: "out = a" and h': "h' = h[a := (h ! a)\<lparr>cells := rows\<rparr>]" by auto
  have "wf_ndarray ((h ! a)\<lparr>cells := rows\<rparr>)"
    by (rule wf_rows[where f = "\<lambda>r. nd_convolve r w mode", OF wf rows]) (rule nd_convolve_length)
  with o h' w rows show ?thesis by blast
qed

lemma savgol_result:
  assumes run: "savgol sf h a fw po dv delta = (r, h')"
  shows "take (length h) h' = h \<and>
         (\<forall>out. r = Inr out \<longrightarrow> out = length h \<and> length h' = Suc (length h) \<and>
                 sf (h ! a) fw po dv delta = Inr (h' ! out))"
  using run by (auto simp: savgol_def alloc_def split: sum.splits)

subsection \<open>Running msc on a concrete matrix\<close>

lemma msc_correct_fit:
  "polyfit1 lo ref r = Inr (a, b) \<Longrightarrow> msc_correct lo ref r = Inr (map (\<lambda>x. fdiv (fsub x b) a) r)"
  by (simp add: msc_correct_def)

lemma msc_spec_rows:
  "msc_spec lo M reference =
     (case map_result (msc_correct lo (msc_reference M reference)) (map mean_centre (cells M)) of
        Inl e \<Rightarrow> Inl e
      | Inr rows \<Rightarrow> Inr (M\<lparr>cells := rows\<rparr>))"
proof -
  have c: "map (\<lambda>row. map (\<lambda>x. fsub x (np_mean row)) row) (cells M) = map mean_centre (cells M)"
    by (simp add: mean_centre_def)
  have f: "(\<lambda>row. case polyfit1 lo r row of
                     Inl e \<Rightarrow> Inl e
                   | Inr (a, b) \<Rightarrow> Inr (map (\<lambda>x. fdiv (fsub x b) a) row)) = msc_correct lo r" for r
    by (rule ext) (simp add: msc_correct_def)
  have r: "(case reference of
              None \<Rightarrow> map (\<lambda>j. np_mean (map (\<lambda>row. row ! j) (map mean_centre (cells M))))
                        [0 ..< shape1 M]
            | Some r \<Rightarrow> r) = msc_reference M reference"
    by (simp add: msc_reference_def np_mean_axis0_def split: option.splits)
  show ?thesis
    unfolding msc_spec_def Let_def c r f ..
qed

lemma msc_rows:
  assumes "a < length h" and "wf_ndarray (h ! a)"
    and "map_result (msc_correct lo (msc_reference (h ! a) reference))
           (map mean_centre (cells (h ! a))) = Inr rows"
  shows "msc lo h a reference =
           (Inr (Suc (length h)),
            h @ [(h ! a)\<lparr>cells := map mean_centre (cells (h ! a))\<rparr>, (h ! a)\<lparr>cells := rows\<rparr>])"
proof -
  from msc_run[OF assms(1,2), of lo reference] assms(3)
  have "fst (msc lo h a reference) = Inr (Suc (length h))"
    and "snd (msc lo h a reference) =
           h @ [(h ! a)\<lparr>cells := map mean_centre (cells (h ! a))\<rparr>, (h ! a)\<lparr>cells := rows\<rparr>]"
    by (auto simp: msc_reference_def)
  then show ?thesis by (simp add: prod_eq_iff)
qed

lemma msc_raises:
  assumes "a < length h" and "wf_ndarray (h ! a)"
    and "map_result (msc_correct lo (msc_reference (h ! a) reference))
           (map mean_centre (cells (h ! a))) = Inl e"
  shows "fst (msc lo h a reference) = Inl e"
  using msc_run[OF assms(1,2), of lo reference] assms(3)
  by (auto simp: msc_reference_def)

subsection \<open>Overflow, and division by zero\<close>

lemma ieee_result_everyday:
  assumes "x = 0 \<or> 1 / 1048576 \<le> \<bar>x\<bar> \<and> \<bar>x\<bar> \<le> 1048576"
    and "y = 0 \<or> 1 / 1048576 \<le> \<bar>y\<bar> \<and> \<bar>y\<bar> \<le> 1048576"
    and "r = 0 \<or> 1 / 1048576 \<le> \<bar>r\<bar> \<and> \<bar>r\<bar> \<le> 1048576"
  shows "ieee_result x y r = Fin r"
  by (subst ieee_result_code) (simp only: assms simp_thms if_True)

lemma ieee_result_zero: "ieee_result x y 0 = Fin 0"
  by (simp add: ieee_result_def overflow_threshold_def underflow_threshold_def)

lemma float64_magnitude_big: "float64_magnitude (2 ^ 1023)" "float64_magnitude (- (2 ^ 1023))"
  by (simp_all add: float64_magnitude_def overflow_threshold_def smallest_subnormal_def)





lemma fdiv_zero_not_finite: "\<not> is_finite (fdiv v (Fin 0))"
  by (cases v) simp_all

lemma msc_returned_rows:
  assumes a: "a < length h" and wf: "wf_ndarray (h ! a)"
    and run: "msc lo h a reference = (Inr out, h')"
  shows "map_result (msc_correct lo (msc_reference (h ! a) reference))
           (map mean_centre (cells (h ! a))) = Inr (cells (h' ! out))"
proof -
  let ?A = "h ! a"
  let ?centred = "map mean_centre (cells ?A)"
  from msc_run[OF a wf, of lo reference] obtain D where
    D0: "snd (msc lo h a reference) = h @ [?A\<lparr>cells := ?centred\<rparr>, ?A\<lparr>cells := D\<rparr>]"
       "case map_result (msc_correct lo (msc_reference ?A reference)) ?centred of
          Inl e \<Rightarrow> fst (msc lo h a reference) = Inl e
        | Inr rows \<Rightarrow> fst (msc lo h a reference) = Inr (Suc (length h)) \<and> D = rows"
    unfolding msc_reference_def by blast
  note D = D0[unfolded run fst_conv snd_conv]
  show ?thesis
  proof (cases "map_result (msc_correct lo (msc_reference ?A reference)) ?centred")
    case (Inl e)
    with D(2) show ?thesis by simp
  next
    case (Inr rows)
    with D(2) have "out = Suc (length h)" and "D = rows" by simp_all
    with D(1) Inr show ?thesis by (simp add: nth_append)
  qed
qed


text \<open>The window of three ones, normalised, and the row \<open>[1, 3]\<close> under it.\<close>

lemma smooth_window_flat_3:
  "smooth_window gw 3 ''flat'' = Inr [Fin (1 / 3), Fin (1 / 3), Fin (1 / 3)]"
  by (simp add: smooth_window_def np_ones_def np_sum_def numeral_3_eq_3 ieee_result_everyday)

lemma smooth_1_3:
  "smooth gw [\<lparr>shape0 = 1, shape1 = 2, cells = [[Fin 1, Fin 3]]\<rparr>] 0 3 ''flat'' ''reflect'' =
     (Inr 0, [\<lparr>shape0 = 1, shape1 = 2, cells = [[Fin (5 / 3), Fin (7 / 3)]]\<rparr>])"
proof -
  let ?M = "\<lparr>shape0 = 1, shape1 = 2, cells = [[Fin 1, Fin 3]]\<rparr>"
  have a: "(0::nat) < length [?M]" by simp
  have wf: "wf_ndarray ([?M] ! 0)" by (simp add: wf_ndarray_def)
  have c: "nd_convolve [Fin 1, Fin 3] [Fin (1 / 3), Fin (1 / 3), Fin (1 / 3)] ''reflect'' =
             Inr [Fin (5 / 3), Fin (7 / 3)]"
    by code_simp
  show ?thesis
    unfolding smooth_run[OF a wf] smooth_window_flat_3 by (simp add: c)
qed

section \<open>The algorithm of msc\<close>

text \<open>
  C1. For every input matrix, \<open>msc\<close> computes its result by this algorithm: it
  mean-centres each row, takes the reference to be the column-wise mean of the centred
  matrix when none is supplied (the supplied reference otherwise), fits slope a and
  intercept b by ordinary least squares of each centred row against the reference, and
  returns the rows (centred row - b) / a. The first conjunct equates the program, with
  its copy, its two loops and its exceptions, to that algorithm; the second says that
  the fit, on finite data whose abscissae are not all equal, minimises the sum of
  squared residuals over all lines.
\<close>

theorem msc_algorithm:
  assumes "input_data < length h" and "wf_ndarray (h ! input_data)"
  shows "(case msc_spec lo (h ! input_data) reference of
            Inl e \<Rightarrow> fst (msc lo h input_data reference) = Inl e
          | Inr R \<Rightarrow> (\<exists>out. fst (msc lo h input_data reference) = Inr out \<and>
                          snd (msc lo h input_data reference) ! out = R)) \<and>
         (\<forall>xs ys a b.
            polyfit1 lo (map Fin xs) (map Fin ys) = Inr (a, b) \<and> (\<exists>x\<in>set xs. x \<noteq> hd xs) \<longrightarrow>
            (\<exists>a0 b0. a = Fin a0 \<and> b = Fin b0 \<and> (\<forall>a' b'. sse xs ys a0 b0 \<le> sse xs ys a' b')))"
proof
  let ?A = "h ! input_data"
  let ?centred = "map mean_centre (cells ?A)"
  let ?ref = "case reference of
                None \<Rightarrow> np_mean_axis0 (?A\<lparr>cells := ?centred\<rparr>)
              | Some r \<Rightarrow> r"
  let ?m = "msc lo h input_data reference"
  from msc_run[OF assms, of lo reference] obtain D where
    D: "snd ?m = h @ [?A\<lparr>cells := ?centred\<rparr>, ?A\<lparr>cells := D\<rparr>]"
       "case map_result (msc_correct lo ?ref) ?centred of
          Inl e \<Rightarrow> fst ?m = Inl e
        | Inr rows \<Rightarrow> fst ?m = Inr (Suc (length h)) \<and> D = rows"
    by blast
  have c: "map (\<lambda>row. map (\<lambda>x. fsub x (np_mean row)) row) (cells ?A) = ?centred"
    by (simp add: mean_centre_def)
  have f: "(\<lambda>row. case polyfit1 lo r row of
                     Inl e \<Rightarrow> Inl e
                   | Inr (a, b) \<Rightarrow> Inr (map (\<lambda>x. fdiv (fsub x b) a) row)) = msc_correct lo r" for r
    by (rule ext) (simp add: msc_correct_def)
  have r: "(case reference of
              None \<Rightarrow> map (\<lambda>j. np_mean (map (\<lambda>row. row ! j) ?centred)) [0 ..< shape1 ?A]
            | Some r \<Rightarrow> r) = ?ref"
    by (simp add: np_mean_axis0_def split: option.splits)
  have spec: "msc_spec lo ?A reference =
        (case map_result (msc_correct lo ?ref) ?centred of
           Inl e \<Rightarrow> Inl e
         | Inr rows \<Rightarrow> Inr (?A\<lparr>cells := rows\<rparr>))"
    unfolding msc_spec_def Let_def c r f ..
  show "case msc_spec lo ?A reference of
            Inl e \<Rightarrow> fst ?m = Inl e
          | Inr R \<Rightarrow> (\<exists>out. fst ?m = Inr out \<and> snd ?m ! out = R)"
  proof (cases "map_result (msc_correct lo ?ref) ?centred")
    case (Inl e)
    with D(2) spec show ?thesis by simp
  next
    case (Inr rows)
    with D(2) have "fst ?m = Inr (Suc (length h))" "D = rows" by simp_all
    moreover from D(1) have "snd ?m ! Suc (length h) = ?A\<lparr>cells := D\<rparr>"
      by (simp add: nth_append)
    ultimately show ?thesis using spec Inr by simp
  qed
  show "\<forall>xs ys a b.
            polyfit1 lo (map Fin xs) (map Fin ys) = Inr (a, b) \<and> (\<exists>x\<in>set xs. x \<noteq> hd xs) \<longrightarrow>
            (\<exists>a0 b0. a = Fin a0 \<and> b = Fin b0 \<and> (\<forall>a' b'. sse xs ys a0 b0 \<le> sse xs ys a' b'))"
    using polyfit1_least_squares by blast
qed

theorem msc_algorithm_witness:
  "(\<exists>out. fst (msc lstsq_raises
               [\<lparr>shape0 = 2, shape1 = 3, cells = [[Fin 1, Fin 2, Fin 3], [Fin 2, Fin 4, Fin 9]]\<rparr>]
               0 None) = Inr out \<and>
          snd (msc lstsq_raises
               [\<lparr>shape0 = 2, shape1 = 3, cells = [[Fin 1, Fin 2, Fin 3], [Fin 2, Fin 4, Fin 9]]\<rparr>]
               0 None) ! out =
            \<lparr>shape0 = 2, shape1 = 3,
             cells = [[Fin (- (7 / 3)), Fin 0, Fin (7 / 3)],
                      [Fin (- (21 / 11)), Fin (- (7 / 11)), Fin (28 / 11)]]\<rparr>) \<and>
   polyfit1 lstsq_raises (map Fin [0, 1, 3]) (map Fin [- 3, - 1, 4]) =
     Inr (Fin (33 / 14), Fin (- (22 / 7))) \<and>
   (\<forall>a' b'. sse [0, 1, 3] [- 3, - 1, 4] (33 / 14) (- (22 / 7)) \<le> sse [0, 1, 3] [- 3, - 1, 4] a' b')"
proof -
  let ?M = "\<lparr>shape0 = 2, shape1 = 3, cells = [[Fin 1, Fin 2, Fin 3], [Fin 2, Fin 4, Fin 9]]\<rparr>"
  let ?R = "\<lparr>shape0 = 2, shape1 = 3,
             cells = [[Fin (- (7 / 3)), Fin 0, Fin (7 / 3)],
                      [Fin (- (21 / 11)), Fin (- (7 / 11)), Fin (28 / 11)]]\<rparr>"
  let ?ref = "[Fin (- 2), Fin (- (1 / 2)), Fin (5 / 2)]"
  have a: "(0::nat) < length [?M]" by simp
  have wf: "wf_ndarray ([?M] ! 0)" by (simp add: wf_ndarray_def)
  note t = msc_algorithm[of 0 "[?M]" lstsq_raises None, OF a wf]
  have c1: "mean_centre [Fin 1, Fin 2, Fin 3] = [Fin (- 1), Fin 0, Fin 1]" by code_simp
  have c2: "mean_centre [Fin 2, Fin 4, Fin 9] = [Fin (- 3), Fin (- 1), Fin 4]" by code_simp
  have r0: "np_mean_axis0 \<lparr>shape0 = 2, shape1 = 3,
              cells = [[Fin (- 1), Fin 0, Fin 1], [Fin (- 3), Fin (- 1), Fin 4]]\<rparr> = ?ref"
    by code_simp
  have r: "msc_reference ?M None = ?ref"
    by (simp add: msc_reference_def c1 c2 r0)
  have f1: "polyfit1 lstsq_raises ?ref [Fin (- 1), Fin 0, Fin 1] = Inr (Fin (3 / 7), Fin 0)"
    by code_simp
  have f2: "polyfit1 lstsq_raises ?ref [Fin (- 3), Fin (- 1), Fin 4] = Inr (Fin (11 / 7), Fin 0)"
    by code_simp
  have k1: "msc_correct lstsq_raises ?ref [Fin (- 1), Fin 0, Fin 1] =
              Inr [Fin (- (7 / 3)), Fin 0, Fin (7 / 3)]"
    unfolding msc_correct_fit[OF f1] by code_simp
  have k2: "msc_correct lstsq_raises ?ref [Fin (- 3), Fin (- 1), Fin 4] =
              Inr [Fin (- (21 / 11)), Fin (- (7 / 11)), Fin (28 / 11)]"
    unfolding msc_correct_fit[OF f2] by code_simp
  have spec: "msc_spec lstsq_raises ([?M] ! 0) None = Inr ?R"
    by (simp add: msc_spec_rows r c1 c2 k1 k2)
  from t[THEN conjunct1] have one:
    "\<exists>out. fst (msc lstsq_raises [?M] 0 None) = Inr out \<and>
           snd (msc lstsq_raises [?M] 0 None) ! out = ?R"
    unfolding spec by simp
  have fit: "polyfit1 lstsq_raises (map Fin [0, 1, 3]) (map Fin [- 3, - 1, 4]) =
     Inr (Fin (33 / 14), Fin (- (22 / 7)))" by code_simp
  have full: "\<exists>x\<in>set [0, 1, 3::real]. x \<noteq> hd [0, 1, 3]" by simp
  from t[THEN conjunct2, rule_format, OF conjI[OF fit full]]
  obtain a0 b0 where ab: "Fin (33 / 14) = Fin a0" "Fin (- (22 / 7)) = Fin b0"
    and opt: "\<forall>a' b'. sse [0, 1, 3] [- 3, - 1, 4] a0 b0 \<le> sse [0, 1, 3] [- 3, - 1, 4] a' b'"
    by blast
  from ab have "a0 = 33 / 14" and "b0 = - (22 / 7)" by (simp_all only: float64.inject)
  with opt have two: "\<forall>a' b'. sse [0, 1, 3] [- 3, - 1, 4] (33 / 14) (- (22 / 7))
                  \<le> sse [0, 1, 3] [- 3, - 1, 4] a' b'"
    by simp
  from one fit two show ?thesis by blast
qed

section \<open>The algorithm of snv\<close>




section \<open>Shapes\<close>



section \<open>Effects on the caller's arrays\<close>

text \<open>
  C4. \<open>msc\<close>, \<open>snv\<close> and \<open>savgol\<close> leave every array of the caller, the input
  included, as it was, and what they return is a new array (\<open>msc\<close> works on a copy, also
  when it raises); \<open>smooth\<close> returns the address it was given, and the caller's buffer
  then holds the convolved rows.
\<close>

theorem input_buffer_effects:
  assumes "M < length h" and "wf_ndarray (h ! M)"
  shows "(\<forall>r h'. msc lo h M reference = (r, h') \<longrightarrow>
            take (length h) h' = h \<and> (\<forall>out. r = Inr out \<longrightarrow> length h \<le> out)) \<and>
         (\<forall>out h'. snv h M = (out, h') \<longrightarrow> take (length h) h' = h \<and> length h \<le> out) \<and>
         (\<forall>r h'. savgol savgol_filter h M window_length poly_order deriv_order delta = (r, h') \<longrightarrow>
            take (length h) h' = h \<and> (\<forall>out. r = Inr out \<longrightarrow> length h \<le> out)) \<and>
         (\<forall>out h'. smooth get_window h M filter_win window_type mode = (Inr out, h') \<longrightarrow>
            out = M \<and>
            (\<exists>window rows. smooth_window get_window filter_win window_type = Inr window \<and>
               map_result (\<lambda>r. nd_convolve r window mode) (cells (h ! M)) = Inr rows \<and>
               h' = h[M := (h ! M)\<lparr>cells := rows\<rparr>]))"
proof -
  have 1: "take (length h) h' = h \<and> (\<forall>out. r = Inr out \<longrightarrow> length h \<le> out)"
    if "msc lo h M reference = (r, h')" for r h'
    using msc_result[OF assms that] by auto
  have 2: "take (length h) h' = h \<and> length h \<le> out" if "snv h M = (out, h')" for out h'
    using snv_eq[OF assms] that by auto
  have 3: "take (length h) h' = h \<and> (\<forall>out. r = Inr out \<longrightarrow> length h \<le> out)"
    if "savgol savgol_filter h M window_length poly_order deriv_order delta = (r, h')" for r h'
    using savgol_result[OF that] by auto
  have 4: "out = M \<and>
            (\<exists>window rows. smooth_window get_window filter_win window_type = Inr window \<and>
               map_result (\<lambda>r. nd_convolve r window mode) (cells (h ! M)) = Inr rows \<and>
               h' = h[M := (h ! M)\<lparr>cells := rows\<rparr>])"
    if "smooth get_window h M filter_win window_type mode = (Inr out, h')" for out h'
    using smooth_result[OF assms that] by blast
  from 1 2 3 4 show ?thesis by blast
qed

theorem input_buffer_effects_witness:
  "take 1 (snd (msc lstsq_raises [\<lparr>shape0 = 1, shape1 = 2, cells = [[Fin 1, Fin 3]]\<rparr>] 0 None))
     = [\<lparr>shape0 = 1, shape1 = 2, cells = [[Fin 1, Fin 3]]\<rparr>] \<and>
   take 1 (snd (snv [\<lparr>shape0 = 1, shape1 = 2, cells = [[Fin 1, Fin 3]]\<rparr>] 0))
     = [\<lparr>shape0 = 1, shape1 = 2, cells = [[Fin 1, Fin 3]]\<rparr>] \<and>
   take 1 (snd (savgol savgol_filter_window1 [\<lparr>shape0 = 1, shape1 = 2, cells = [[Fin 1, Fin 3]]\<rparr>]
                  0 1 0 0 (Fin 1)))
     = [\<lparr>shape0 = 1, shape1 = 2, cells = [[Fin 1, Fin 3]]\<rparr>] \<and>
   smooth boxcar_catalogue [\<lparr>shape0 = 1, shape1 = 2, cells = [[Fin 1, Fin 3]]\<rparr>] 0 3 ''flat'' ''reflect''
     = (Inr 0, [\<lparr>shape0 = 1, shape1 = 2, cells = [[Fin (5 / 3), Fin (7 / 3)]]\<rparr>])"
proof -
  let ?M = "\<lparr>shape0 = 1, shape1 = 2, cells = [[Fin 1, Fin 3]]\<rparr>"
  let ?h = "[?M]"
  have a: "(0::nat) < length ?h" by simp
  have wf: "wf_ndarray (?h ! 0)" by (simp add: wf_ndarray_def)
  note t = input_buffer_effects[of 0 ?h lstsq_raises None savgol_filter_window1 1 0 0 "Fin 1"
      boxcar_catalogue 3 "''flat''" "''reflect''", OF a wf]
  have sm: "smooth boxcar_catalogue ?h 0 3 ''flat'' ''reflect''
            = (Inr 0, [\<lparr>shape0 = 1, shape1 = 2, cells = [[Fin (5 / 3), Fin (7 / 3)]]\<rparr>])"
    by (rule smooth_1_3)
  from t[THEN conjunct1, rule_format, OF prod.collapse[symmetric]]
       t[THEN conjunct2, THEN conjunct1, rule_format, OF prod.collapse[symmetric]]
       t[THEN conjunct2, THEN conjunct2, THEN conjunct1, rule_format, OF prod.collapse[symmetric]]
       t[THEN conjunct2, THEN conjunct2, THEN conjunct2, rule_format, OF sm]
       sm
  show ?thesis by simp
qed

section \<open>Rows whose denominator is zero\<close>

text \<open>
  C5, as the code has it. \<open>snv\<close> never raises, and for every row whose \<open>np.std\<close> is
  exactly 0 (as it is for the constant row \<open>[2, 2, 2]\<close>) the matrix it returns, of the
  shape of the input, holds only NaN or infinity in that row, never a zero. \<open>msc\<close>
  does the same, when it returns, for every row fitted with slope exactly 0.
\<close>

theorem zero_denominator_propagates:
  assumes "M < length h" and "wf_ndarray (h ! M)"
  shows "(\<forall>out h' i. snv h M = (out, h') \<and> i < shape0 (h ! M) \<and>
              np_std 0 (cells (h ! M) ! i) = Fin 0 \<longrightarrow>
            shape (h' ! out) = shape (h ! M) \<and> wf_ndarray (h' ! out) \<and>
            list_all (\<lambda>v. \<not> is_finite v) (cells (h' ! out) ! i)) \<and>
         (\<forall>out h' i b. msc lo h M reference = (Inr out, h') \<and> i < shape0 (h ! M) \<and>
              polyfit1 lo (msc_reference (h ! M) reference) (mean_centre (cells (h ! M) ! i))
                = Inr (Fin 0, b) \<longrightarrow>
            shape (h' ! out) = shape (h ! M) \<and> wf_ndarray (h' ! out) \<and>
            list_all (\<lambda>v. \<not> is_finite v) (cells (h' ! out) ! i))"
proof -
  let ?A = "h ! M"
  have n: "length (cells ?A) = shape0 ?A" using assms(2) by (simp add: wf_ndarray_def)
  have 1: "shape (h' ! out) = shape ?A \<and> wf_ndarray (h' ! out) \<and>
           list_all (\<lambda>v. \<not> is_finite v) (cells (h' ! out) ! i)"
    if run: "snv h M = (out, h')" and i: "i < shape0 ?A"
      and z: "np_std 0 (cells ?A ! i) = Fin 0" for out h' i
  proof -
    from snv_eq[OF assms] run
    have o: "out = length h" and h': "h' = h @ [?A\<lparr>cells := map snv_row (cells ?A)\<rparr>]"
      by simp_all
    have "cells (h' ! out) ! i = snv_row (cells ?A ! i)" using i n by (simp add: o h')
    then have "list_all (\<lambda>v. \<not> is_finite v) (cells (h' ! out) ! i)"
      by (simp add: snv_row_def z list_all_iff fdiv_zero_not_finite)
    moreover have "shape (h' ! out) = shape ?A" by (simp add: o h' shape_def)
    moreover have "wf_ndarray (h' ! out)"
      using wf_map_rows[OF assms(2), of snv_row] by (simp add: o h' snv_row_length)
    ultimately show ?thesis by simp
  qed
  have 2: "shape (h' ! out) = shape ?A \<and> wf_ndarray (h' ! out) \<and>
           list_all (\<lambda>v. \<not> is_finite v) (cells (h' ! out) ! i)"
    if run: "msc lo h M reference = (Inr out, h')" and i: "i < shape0 ?A"
      and z: "polyfit1 lo (msc_reference ?A reference) (mean_centre (cells ?A ! i))
                = Inr (Fin 0, b)" for out h' i b
  proof -
    from msc_result[OF assms run]
    have s: "shape (h' ! out) = shape ?A" and w: "wf_ndarray (h' ! out)" by auto
    from map_result_Inr[OF msc_returned_rows[OF assms run]] i n
    have "msc_correct lo (msc_reference ?A reference) (mean_centre (cells ?A ! i))
            = Inr (cells (h' ! out) ! i)"
      by simp
    then have "cells (h' ! out) ! i =
                 map (\<lambda>x. fdiv (fsub x b) (Fin 0)) (mean_centre (cells ?A ! i))"
      by (simp add: msc_correct_fit[OF z])
    then have "list_all (\<lambda>v. \<not> is_finite v) (cells (h' ! out) ! i)"
      by (simp add: list_all_iff fdiv_zero_not_finite)
    with s w show ?thesis by simp
  qed
  from 1 2 show ?thesis by blast
qed

theorem zero_denominator_propagates_witness:
  "np_std 0 [Fin 2, Fin 2, Fin 2] = Fin 0 \<and>
   snv [\<lparr>shape0 = 1, shape1 = 3, cells = [[Fin 2, Fin 2, Fin 2]]\<rparr>] 0 =
     (1, [\<lparr>shape0 = 1, shape1 = 3, cells = [[Fin 2, Fin 2, Fin 2]]\<rparr>,
          \<lparr>shape0 = 1, shape1 = 3, cells = [[NaN, NaN, NaN]]\<rparr>]) \<and>
   polyfit1 lstsq_raises [Fin 1, Fin 2, Fin 4] [Fin 0, Fin 0, Fin 0] = Inr (Fin 0, Fin 0) \<and>
   msc lstsq_raises [\<lparr>shape0 = 1, shape1 = 3, cells = [[Fin 2, Fin 2, Fin 2]]\<rparr>] 0
       (Some [Fin 1, Fin 2, Fin 4]) =
     (Inr 2, [\<lparr>shape0 = 1, shape1 = 3, cells = [[Fin 2, Fin 2, Fin 2]]\<rparr>,
              \<lparr>shape0 = 1, shape1 = 3, cells = [[Fin 0, Fin 0, Fin 0]]\<rparr>,
              \<lparr>shape0 = 1, shape1 = 3, cells = [[NaN, NaN, NaN]]\<rparr>]) \<and>
   list_all (\<lambda>v. \<not> is_finite v) [NaN, NaN, NaN]"
proof -
  let ?M = "\<lparr>shape0 = 1, shape1 = 3, cells = [[Fin 2, Fin 2, Fin 2]]\<rparr>"
  let ?N = "\<lparr>shape0 = 1, shape1 = 3, cells = [[NaN, NaN, NaN]]\<rparr>"
  let ?C = "\<lparr>shape0 = 1, shape1 = 3, cells = [[Fin 0, Fin 0, Fin 0]]\<rparr>"
  let ?ref = "[Fin 1, Fin 2, Fin 4]"
  have a: "(0::nat) < length [?M]" by simp
  have wf: "wf_ndarray ([?M] ! 0)" by (simp add: wf_ndarray_def)
  have i: "(0::nat) < shape0 ([?M] ! 0)" by simp
  note t = zero_denominator_propagates[OF a wf, of lstsq_raises "Some ?ref"]
  have m: "np_mean [Fin 2, Fin 2, Fin 2] = Fin 2" by code_simp
  have c: "mean_centre [Fin 2, Fin 2, Fin 2] = [Fin 0, Fin 0, Fin 0]" by code_simp
  have z: "np_std 0 [Fin 2, Fin 2, Fin 2] = Fin 0"
    by (simp add: np_std_def m fsub_def ieee_result_zero np_sum_def)
  have r: "snv_row [Fin 2, Fin 2, Fin 2] = [NaN, NaN, NaN]"
    by (simp add: snv_row_def m z fsub_def ieee_result_zero)
  have s: "snv [?M] 0 = (1, [?M, ?N])"
    unfolding snv_eq[OF a wf] by (simp add: r)
  have f: "polyfit1 lstsq_raises ?ref [Fin 0, Fin 0, Fin 0] = Inr (Fin 0, Fin 0)"
    by code_simp
  have k: "msc_correct lstsq_raises ?ref [Fin 0, Fin 0, Fin 0] = Inr [NaN, NaN, NaN]"
    unfolding msc_correct_fit[OF f] by code_simp
  have mr: "map_result (msc_correct lstsq_raises (msc_reference ([?M] ! 0) (Some ?ref)))
              (map mean_centre (cells ([?M] ! 0))) = Inr [[NaN, NaN, NaN]]"
    by (simp add: msc_reference_def c k)
  from msc_rows[OF a wf mr] have ms: "msc lstsq_raises [?M] 0 (Some ?ref) = (Inr 2, [?M, ?C, ?N])"
    by (simp add: c)
  have z': "np_std 0 (cells ([?M] ! 0) ! 0) = Fin 0" using z by simp
  have f': "polyfit1 lstsq_raises (msc_reference ([?M] ! 0) (Some ?ref))
              (mean_centre (cells ([?M] ! 0) ! 0)) = Inr (Fin 0, Fin 0)"
    using f by (simp add: msc_reference_def c)
  from t[THEN conjunct1, rule_format, OF conjI[OF s conjI[OF i z']]]
  have "list_all (\<lambda>v. \<not> is_finite v) (cells ([?M, ?N] ! 1) ! 0)" by blast
  moreover from t[THEN conjunct2, rule_format, OF conjI[OF ms conjI[OF i f']]]
  have "list_all (\<lambda>v. \<not> is_finite v) (cells ([?M, ?C, ?N] ! 2) ! 0)" by blast
  ultimately show ?thesis using z s f ms by simp
qed

text \<open>
  The claim as written says that \<open>msc\<close> does not raise on a matrix with a constant
  row. On \<open>[[2, 2, 2]]\<close> with no reference the centred row and the reference are all
  zero, the regression has no unique solution, and \<open>np.polyfit\<close> raises.
\<close>

theorem zero_denominator_propagates_counterexample:
  "mean_centre [Fin 2, Fin 2, Fin 2] = [Fin 0, Fin 0, Fin 0] \<and>
   msc_reference \<lparr>shape0 = 1, shape1 = 3, cells = [[Fin 2, Fin 2, Fin 2]]\<rparr> None =
     [Fin 0, Fin 0, Fin 0] \<and>
   fst (msc lstsq_raises [\<lparr>shape0 = 1, shape1 = 3, cells = [[Fin 2, Fin 2, Fin 2]]\<rparr>] 0 None) =
     Inl (LinAlgError ''SVD did not converge in Linear Least Squares'')"
proof -
  let ?M = "\<lparr>shape0 = 1, shape1 = 3, cells = [[Fin 2, Fin 2, Fin 2]]\<rparr>"
  have a: "(0::nat) < length [?M]" by simp
  have wf: "wf_ndarray ([?M] ! 0)" by (simp add: wf_ndarray_def)
  have c: "mean_centre [Fin 2, Fin 2, Fin 2] = [Fin 0, Fin 0, Fin 0]" by code_simp
  have r: "msc_reference ?M None = [Fin 0, Fin 0, Fin 0]"
    by code_simp
  have k: "msc_correct lstsq_raises [Fin 0, Fin 0, Fin 0] [Fin 0, Fin 0, Fin 0] =
             Inl (LinAlgError ''SVD did not converge in Linear Least Squares'')"
    by code_simp
  have "map_result (msc_correct lstsq_raises (msc_reference ?M None))
          (map mean_centre (cells ?M)) =
          Inl (LinAlgError ''SVD did not converge in Linear Least Squares'')"
    unfolding r by (simp add: c k)
  then have mr: "map_result (msc_correct lstsq_raises (msc_reference ([?M] ! 0) None))
              (map mean_centre (cells ([?M] ! 0))) =
              Inl (LinAlgError ''SVD did not converge in Linear Least Squares'')"
    by simp
  from msc_raises[OF a wf mr] c r show ?thesis by simp
qed

section \<open>Errors of smooth\<close>

text \<open>
  C7, as the code has it. \<open>smooth\<close> fails, returning no matrix and leaving the buffer
  as it was, when the window catalogue rejects \<open>window_type\<close>; when \<open>filter_win\<close> is
  negative (flat window); and, on a matrix with at least one row, when \<open>filter_win\<close>
  is 0 (flat window) or \<open>mode\<close> is not a name scipy knows. With the flat window,
  any positive \<open>filter_win\<close>, also one above the number of channels, and a known
  mode give a matrix.
\<close>

theorem smooth_configuration_errors:
  assumes "spectra < length h" and "wf_ndarray (h ! spectra)"
  shows "(\<forall>e. window_type \<noteq> ''flat'' \<and> get_window window_type filter_win = Inl e \<longrightarrow>
            smooth get_window h spectra filter_win window_type mode = (Inl e, h)) \<and>
         (window_type = ''flat'' \<and> filter_win < 0 \<longrightarrow>
            smooth get_window h spectra filter_win window_type mode =
              (Inl (ValueError ''negative dimensions are not allowed''), h)) \<and>
         (0 < shape0 (h ! spectra) \<and> window_type = ''flat'' \<and> filter_win = 0 \<longrightarrow>
            (\<exists>e. smooth get_window h spectra filter_win window_type mode = (Inl e, h))) \<and>
         (0 < shape0 (h ! spectra) \<and> extend_mode_to_code mode = None \<longrightarrow>
            (\<exists>e. smooth get_window h spectra filter_win window_type mode = (Inl e, h))) \<and>
         (window_type = ''flat'' \<and> 0 < filter_win \<and> extend_mode_to_code mode \<noteq> None \<longrightarrow>
            (\<exists>h'. smooth get_window h spectra filter_win window_type mode = (Inr spectra, h')))"
proof -
  let ?A = "h ! spectra"
  note run = smooth_run[OF assms, of get_window filter_win window_type mode]
  have ne: "cells ?A \<noteq> []" if "0 < shape0 ?A"
    using that assms(2) by (auto simp: wf_ndarray_def)
  have 1: "smooth get_window h spectra filter_win window_type mode = (Inl e, h)"
    if "window_type \<noteq> ''flat''" and "get_window window_type filter_win = Inl e" for e
    using that by (simp add: run smooth_window_def)
  have 2: "smooth get_window h spectra filter_win window_type mode =
              (Inl (ValueError ''negative dimensions are not allowed''), h)"
    if "window_type = ''flat''" and "filter_win < 0"
    using that run by (simp add: smooth_window_def np_ones_def)
  have 3: "\<exists>e. smooth get_window h spectra filter_win window_type mode = (Inl e, h)"
    if "0 < shape0 ?A" and "window_type = ''flat''" and "filter_win = 0"
  proof -
    have w: "smooth_window get_window filter_win window_type = Inr []"
      using that by (simp add: smooth_window_def np_ones_def)
    have "map_result (\<lambda>r. nd_convolve r [] mode) (cells ?A) =
            Inl (RuntimeError ''filter weights array has incorrect shape.'')"
      by (rule map_result_first[OF ne[OF that(1)]]) (simp add: nd_convolve_def)
    then show ?thesis by (simp add: run w)
  qed
  have 4: "\<exists>e. smooth get_window h spectra filter_win window_type mode = (Inl e, h)"
    if pos: "0 < shape0 ?A" and md: "extend_mode_to_code mode = None"
  proof (cases "smooth_window get_window filter_win window_type")
    case (Inl e)
    then show ?thesis by (simp add: run)
  next
    case (Inr w)
    have "\<exists>e. nd_convolve (hd (cells ?A)) w mode = Inl e"
      using md by (simp add: nd_convolve_def)
    then obtain e where e: "nd_convolve (hd (cells ?A)) w mode = Inl e" ..
    have "map_result (\<lambda>r. nd_convolve r w mode) (cells ?A) = Inl e"
      by (rule map_result_first[OF ne[OF pos]]) (rule e)
    then show ?thesis by (simp add: run Inr)
  qed
  have 5: "\<exists>h'. smooth get_window h spectra filter_win window_type mode = (Inr spectra, h')"
    if fl: "window_type = ''flat''" and pos: "0 < filter_win"
      and md: "extend_mode_to_code mode \<noteq> None"
  proof -
    from fl pos obtain w where w: "smooth_window get_window filter_win window_type = Inr w"
      and wne: "w \<noteq> []"
      by (auto simp: smooth_window_def np_ones_def)
    from md obtain m where m: "extend_mode_to_code mode = Some m" by blast
    have ok: "\<exists>r'. nd_convolve r w mode = Inr r'" for r
      using wne m by (simp add: nd_convolve_def)
    have "\<exists>rows. map_result (\<lambda>r. nd_convolve r w mode) rs = Inr rows" for rs
    proof (induction rs)
      case Nil
      show ?case by simp
    next
      case (Cons r rs)
      from ok obtain r' where "nd_convolve r w mode = Inr r'" by blast
      moreover from Cons obtain rows where
        "map_result (\<lambda>r. nd_convolve r w mode) rs = Inr rows" by blast
      ultimately show ?case by simp
    qed
    then obtain rows where "map_result (\<lambda>r. nd_convolve r w mode) (cells ?A) = Inr rows"
      by blast
    then show ?thesis by (simp add: run w)
  qed
  from 1 2 3 4 5 show ?thesis by blast
qed

theorem smooth_configuration_errors_witness:
  "smooth boxcar_catalogue [\<lparr>shape0 = 1, shape1 = 3, cells = [[Fin 1, Fin 2, Fin 3]]\<rparr>] 0 3 ''no-such-window'' ''reflect''
     = (Inl (ValueError ''Unknown window type.''), [\<lparr>shape0 = 1, shape1 = 3, cells = [[Fin 1, Fin 2, Fin 3]]\<rparr>]) \<and>
   smooth boxcar_catalogue [\<lparr>shape0 = 1, shape1 = 3, cells = [[Fin 1, Fin 2, Fin 3]]\<rparr>] 0 (- 1) ''flat'' ''reflect''
     = (Inl (ValueError ''negative dimensions are not allowed''),
        [\<lparr>shape0 = 1, shape1 = 3, cells = [[Fin 1, Fin 2, Fin 3]]\<rparr>]) \<and>
   (\<exists>e. smooth boxcar_catalogue [\<lparr>shape0 = 1, shape1 = 3, cells = [[Fin 1, Fin 2, Fin 3]]\<rparr>] 0 0 ''flat'' ''reflect''
     = (Inl e, [\<lparr>shape0 = 1, shape1 = 3, cells = [[Fin 1, Fin 2, Fin 3]]\<rparr>])) \<and>
   (\<exists>e. smooth boxcar_catalogue [\<lparr>shape0 = 1, shape1 = 3, cells = [[Fin 1, Fin 2, Fin 3]]\<rparr>] 0 3 ''flat'' ''bogus''
     = (Inl e, [\<lparr>shape0 = 1, shape1 = 3, cells = [[Fin 1, Fin 2, Fin 3]]\<rparr>])) \<and>
   (\<exists>h'. smooth boxcar_catalogue [\<lparr>shape0 = 1, shape1 = 3, cells = [[Fin 1, Fin 2, Fin 3]]\<rparr>] 0 5 ''flat'' ''reflect''
     = (Inr 0, h'))"
proof -
  let ?h = "[\<lparr>shape0 = 1, shape1 = 3, cells = [[Fin 1, Fin 2, Fin 3]]\<rparr>]"
  have a: "(0::nat) < length ?h" by simp
  have wf: "wf_ndarray (?h ! 0)" by (simp add: wf_ndarray_def)
  have n: "0 < shape0 (?h ! 0)" by simp
  have w: "''no-such-window'' \<noteq> ''flat'' \<and>
           boxcar_catalogue ''no-such-window'' 3 = Inl (ValueError ''Unknown window type.'')"
    by (simp add: boxcar_catalogue_def)
  have m: "extend_mode_to_code ''bogus'' = None" by (simp add: extend_mode_to_code_def)
  have k: "extend_mode_to_code ''reflect'' \<noteq> None" by (simp add: extend_mode_to_code_def)
  from smooth_configuration_errors[OF a wf, of "''flat''" boxcar_catalogue 5 "''reflect''",
          THEN conjunct2, THEN conjunct2, THEN conjunct2, THEN conjunct2, rule_format] k
       smooth_configuration_errors[OF a wf, of "''no-such-window''" boxcar_catalogue 3 "''reflect''",
          THEN conjunct1, rule_format, OF w]
       smooth_configuration_errors[OF a wf, of "''flat''" boxcar_catalogue "- 1" "''reflect''",
          THEN conjunct2, THEN conjunct1, rule_format]
       smooth_configuration_errors[OF a wf, of "''flat''" boxcar_catalogue 0 "''reflect''",
          THEN conjunct2, THEN conjunct2, THEN conjunct1, rule_format]
       smooth_configuration_errors[OF a wf, of "''flat''" boxcar_catalogue 3 "''bogus''",
          THEN conjunct2, THEN conjunct2, THEN conjunct2, THEN conjunct1, rule_format,
          OF conjI[OF n m]]
  show ?thesis by simp
qed

text \<open>
  The claim as written also demands an error when \<open>filter_win\<close> exceeds the number of
  channels, and for any unknown mode. A window of 5 on 3 channels is smoothed, and on
  a matrix with no rows the loop never reaches the convolution.
\<close>

theorem smooth_configuration_errors_counterexample:
  "smooth boxcar_catalogue [\<lparr>shape0 = 1, shape1 = 3, cells = [[Fin 1, Fin 2, Fin 3]]\<rparr>]
     0 5 ''flat'' ''reflect'' =
     (Inr 0, [\<lparr>shape0 = 1, shape1 = 3, cells = [[Fin (9 / 5), Fin 2, Fin (11 / 5)]]\<rparr>]) \<and>
   smooth boxcar_catalogue [\<lparr>shape0 = 0, shape1 = 3, cells = []\<rparr>] 0 3 ''flat'' ''bogus'' =
     (Inr 0, [\<lparr>shape0 = 0, shape1 = 3, cells = []\<rparr>])"
  by code_simp

section \<open>Errors of msc\<close>

text \<open>
  C8, as the code has it. On a matrix with at least one row and m channels, a supplied
  reference whose length is not m makes \<open>msc\<close> fail with the TypeError that
  \<open>np.polyfit\<close> raises on the first row, and the caller's arrays stay as they were.
  The message is numpy's fixed text; it names no length.
\<close>

theorem msc_reference_length_mismatch:
  assumes "M < length h" and "wf_ndarray (h ! M)" and "0 < shape0 (h ! M)"
    and "length ref \<noteq> shape1 (h ! M)"
  shows "fst (msc lo h M (Some ref)) =
           Inl (TypeError (if ref = [] then ''expected non-empty vector for x''
                           else ''expected x and y to have same length'')) \<and>
         take (length h) (snd (msc lo h M (Some ref))) = h"
proof -
  let ?A = "h ! M"
  let ?centred = "map mean_centre (cells ?A)"
  let ?e = "TypeError (if ref = [] then ''expected non-empty vector for x''
                       else ''expected x and y to have same length'')"
  from assms(2,3) have ne: "cells ?A \<noteq> []" and l0: "length (hd (cells ?A)) = shape1 ?A"
    by (cases "cells ?A"; simp add: wf_ndarray_def)+
  have cne: "?centred \<noteq> []" using ne by simp
  have "hd ?centred = mean_centre (hd (cells ?A))" using ne by (simp add: hd_map)
  then have "length ref \<noteq> length (hd ?centred)"
    using assms(4) l0 by (simp add: mean_centre_length)
  then have "msc_correct lo ref (hd ?centred) = Inl ?e" by (rule msc_correct_mismatch)
  with cne have mr: "map_result (msc_correct lo ref) ?centred = Inl ?e" by (rule map_result_first)
  from msc_run[OF assms(1,2), of lo "Some ref"] mr show ?thesis by auto
qed

theorem msc_reference_length_mismatch_witness:
  "fst (msc lstsq_raises [\<lparr>shape0 = 1, shape1 = 3, cells = [[Fin 1, Fin 2, Fin 3]]\<rparr>] 0
          (Some [Fin 1, Fin 2])) = Inl (TypeError ''expected x and y to have same length'') \<and>
   take 1 (snd (msc lstsq_raises [\<lparr>shape0 = 1, shape1 = 3, cells = [[Fin 1, Fin 2, Fin 3]]\<rparr>] 0
          (Some [Fin 1, Fin 2]))) = [\<lparr>shape0 = 1, shape1 = 3, cells = [[Fin 1, Fin 2, Fin 3]]\<rparr>]"
proof -
  let ?h = "[\<lparr>shape0 = 1, shape1 = 3, cells = [[Fin 1, Fin 2, Fin 3]]\<rparr>]"
  have a: "(0::nat) < length ?h" by simp
  have wf: "wf_ndarray (?h ! 0)" by (simp add: wf_ndarray_def)
  have n: "0 < shape0 (?h ! 0)" by simp
  have l: "length [Fin 1, Fin 2] \<noteq> shape1 (?h ! 0)" by simp
  from msc_reference_length_mismatch[OF a wf n l, of lstsq_raises] show ?thesis by simp
qed

text \<open>
  The claim as written fails on a matrix with no rows, where no regression runs and
  the empty matrix is returned; and the message is the same for a reference of length
  2 and of length 4 against 3 channels.
\<close>

theorem msc_reference_length_mismatch_counterexample:
  "fst (msc lstsq_raises [\<lparr>shape0 = 0, shape1 = 3, cells = []\<rparr>] 0 (Some [Fin 1, Fin 2])) = Inr 2 \<and>
   fst (msc lstsq_raises [\<lparr>shape0 = 1, shape1 = 3, cells = [[Fin 1, Fin 2, Fin 3]]\<rparr>] 0
          (Some [Fin 1, Fin 2])) = Inl (TypeError ''expected x and y to have same length'') \<and>
   fst (msc lstsq_raises [\<lparr>shape0 = 1, shape1 = 3, cells = [[Fin 1, Fin 2, Fin 3]]\<rparr>] 0
          (Some [Fin 1, Fin 2, Fin 3, Fin 4])) = Inl (TypeError ''expected x and y to have same length'')"
  by code_simp

section \<open>Algebraic properties\<close>

text \<open>
  C9. \<open>smooth\<close> with \<open>filter_win = 1\<close> and the flat window is the identity, for any
  boundary mode scipy knows: the buffer returned is the input buffer, unchanged.
\<close>

theorem smooth_unit_flat_window_is_identity:
  assumes "spectra < length h" and "wf_ndarray (h ! spectra)"
    and "extend_mode_to_code mode \<noteq> None"
  shows "smooth get_window h spectra 1 ''flat'' mode = (Inr spectra, h)"
proof -
  have "(\<lambda>r. nd_convolve r [Fin 1] mode) = (\<lambda>r. Inr r)"
    by (rule ext) (rule nd_convolve_unit[OF assms(3)])
  then have "map_result (\<lambda>r. nd_convolve r [Fin 1] mode) (cells (h ! spectra)) = Inr (cells (h ! spectra))"
    using map_result_total[of "\<lambda>r. r" "cells (h ! spectra)"] by simp
  then show ?thesis
    by (simp add: smooth_run[OF assms(1,2)] smooth_window_flat_1 update_same_cells[OF assms(1)])
qed

theorem smooth_unit_flat_window_is_identity_witness:
  "extend_mode_to_code ''wrap'' \<noteq> None \<and>
   smooth boxcar_catalogue
     [\<lparr>shape0 = 2, shape1 = 3, cells = [[Fin 1, Fin 2, Fin 3], [Fin 2, Fin 4, Fin 9]]\<rparr>]
     0 1 ''flat'' ''wrap'' =
   (Inr 0, [\<lparr>shape0 = 2, shape1 = 3, cells = [[Fin 1, Fin 2, Fin 3], [Fin 2, Fin 4, Fin 9]]\<rparr>])"
proof -
  let ?h = "[\<lparr>shape0 = 2, shape1 = 3, cells = [[Fin 1, Fin 2, Fin 3], [Fin 2, Fin 4, Fin 9]]\<rparr>]"
  have a: "(0::nat) < length ?h" by simp
  have wf: "wf_ndarray (?h ! 0)" by (simp add: wf_ndarray_def)
  have m: "extend_mode_to_code ''wrap'' \<noteq> None" by (simp add: extend_mode_to_code_def)
  from smooth_unit_flat_window_is_identity[OF a wf m, of boxcar_catalogue] m
  show ?thesis by simp
qed




end
